theory Spec2Isabelle
  imports Main "HOL-Library.Word"
begin

unbundle bit_operations_syntax

section \<open>Machine types and constants\<close>

text \<open>
  The C types of \<^verbatim>\<open>mylib.c\<close> and \<^verbatim>\<open>server.c\<close> on the LP64 platform they are
  written for: \<^verbatim>\<open>int\<close> is a 32-bit word read with \<open>sint\<close>, \<^verbatim>\<open>size_t\<close> a 64-bit word
  read with \<open>unat\<close>, \<^verbatim>\<open>ssize_t\<close> and \<^verbatim>\<open>off_t\<close> 64-bit words read with \<open>sint\<close>.
  Arithmetic on words wraps around, as the compiled code does. Conversions between the
  types are \<open>scast\<close> (sign extension, \<^verbatim>\<open>int\<close> to \<^verbatim>\<open>ssize_t\<close>) and \<open>ucast\<close>
  (truncation, \<^verbatim>\<open>size_t\<close> to the four bytes a \<^verbatim>\<open>memcpy\<close> of length 4 takes).
\<close>

type_synonym byte = "8 word"
type_synonym cint = "32 word"
type_synonym size_t = "64 word"
type_synonym ssize_t = "64 word"
type_synonym off_t = "64 word"

definition MAX_MSG_LEN :: size_t where
  "MAX_MSG_LEN = 4096"

definition FD_OFFSET :: cint where
  "FD_OFFSET = 5000"

text \<open>\<^verbatim>\<open>O_CREAT\<close> comes from \<^verbatim>\<open><fcntl.h>\<close>; the value is Linux's (octal 0100).\<close>

definition O_CREAT :: cint where
  "O_CREAT = 64"

section \<open>The client shim (mylib.c)\<close>

subsection \<open>Frames, the peer and the process state\<close>

text \<open>
  A request is the decoded content of the frame that \<^verbatim>\<open>sendRequest\<close> emits: the opcode
  (the constructor) and the fields copied into \<^verbatim>\<open>reqBuf\<close>. Path names are the bytes of the
  C string before its terminator. The payload of a write request is \<^verbatim>\<open>count\<close> bytes of the
  caller's buffer starting at the displacement \<^verbatim>\<open>total_bytes_written\<close>, which the request
  records in place of the bytes; the \<^verbatim>\<open>struct stat\<close> image that \<^verbatim>\<open>stat\<close> sends is
  left out.

  A reply is the decoded content of the bytes one call of \<^verbatim>\<open>receiveResponse\<close> collects for
  a reply header: two \<^verbatim>\<open>int\<close>s, or for \<^verbatim>\<open>lseek\<close> an \<^verbatim>\<open>off_t\<close> and an \<^verbatim>\<open>int\<close>. Data bytes
  that follow a header are not represented.
\<close>

datatype request =
    Open_req "byte list" cint cint
  | Read_req cint cint
  | Write_req cint cint cint
  | Close_req cint
  | Lseek_req cint off_t cint
  | Stat_req "byte list"
  | Unlink_req "byte list"
  | Getdirentries_req cint cint off_t

datatype reply =
    Reply cint cint
  | Lseek_reply off_t cint

text \<open>
  The environment of the shim. The server end of the socket is an arbitrary automaton
  over a state \<open>'p\<close>: \<open>deliver\<close> hands it a request frame, \<open>emit\<close> asks it for the next
  reply header and \<open>emit_data\<close> for a given number of further data bytes; \<open>None\<close> means
  that the bytes never arrive (\<^verbatim>\<open>recv\<close> blocks, or fails and \<^verbatim>\<open>err\<close> ends the process),
  so that the shim call does not return. The \<open>orig_\<close> fields are the local
  implementations that \<^verbatim>\<open>_init\<close> looks up with \<^verbatim>\<open>dlsym\<close>, with the result types their
  function pointers declare; they work on the local kernel state \<open>'k\<close> and on \<^verbatim>\<open>errno\<close>,
  and have no access to the shim's socket.
\<close>

type_synonym ('k, 'r) local_call = "cint \<times> 'k \<Rightarrow> 'r \<times> cint \<times> 'k"

record ('p, 'k) env =
  deliver :: "'p \<Rightarrow> request \<Rightarrow> 'p"
  emit :: "'p \<Rightarrow> (reply \<times> 'p) option"
  emit_data :: "'p \<Rightarrow> nat \<Rightarrow> 'p option"
  orig_read :: "cint \<Rightarrow> size_t \<Rightarrow> ('k, cint) local_call"
  orig_write :: "cint \<Rightarrow> size_t \<Rightarrow> ('k, cint) local_call"
  orig_close :: "cint \<Rightarrow> ('k, cint) local_call"
  orig_lseek :: "cint \<Rightarrow> off_t \<Rightarrow> cint \<Rightarrow> ('k, ssize_t) local_call"
  orig_getdirentries :: "cint \<Rightarrow> size_t \<Rightarrow> off_t \<Rightarrow> ('k, ssize_t) local_call"

text \<open>
  The state of the calling process: \<^verbatim>\<open>errno\<close>, the socket (the peer's state together with
  the log of every request sent and every reply header received on it) and the local
  kernel state.
\<close>

record ('p, 'k) proc =
  errno :: cint
  sent :: "request list"
  rcvd :: "reply list"
  peer :: 'p
  kern :: 'k

text \<open>
  \<^verbatim>\<open>sendRequest\<close> loops until \<^verbatim>\<open>send\<close> has taken the whole frame and \<^verbatim>\<open>receiveResponse\<close>
  until \<^verbatim>\<open>recv\<close> has delivered the whole reply: the model moves one frame at a time and
  logs it. \<open>receiveData\<close> is the second \<^verbatim>\<open>receiveResponse\<close> of \<^verbatim>\<open>getdirentries\<close>, for the data
  bytes. \<open>call_local\<close> runs a local implementation on \<^verbatim>\<open>errno\<close> and the kernel state.
\<close>

definition sendRequest :: "('p, 'k) env \<Rightarrow> ('p, 'k) proc \<Rightarrow> request \<Rightarrow> ('p, 'k) proc" where
  "sendRequest E st rq = st\<lparr>sent := sent st @ [rq], peer := deliver E (peer st) rq\<rparr>"

definition receiveResponse ::
  "('p, 'k) env \<Rightarrow> ('p, 'k) proc \<Rightarrow> (reply \<times> ('p, 'k) proc) option" where
  "receiveResponse E st =
     (case emit E (peer st) of
        None \<Rightarrow> None
      | Some (r, p') \<Rightarrow> Some (r, st\<lparr>rcvd := rcvd st @ [r], peer := p'\<rparr>))"

definition receiveData ::
  "('p, 'k) env \<Rightarrow> ('p, 'k) proc \<Rightarrow> nat \<Rightarrow> ('p, 'k) proc option" where
  "receiveData E st n =
     (case emit_data E (peer st) n of
        None \<Rightarrow> None
      | Some p' \<Rightarrow> Some (st\<lparr>peer := p'\<rparr>))"

definition call_local ::
  "('p, 'k) proc \<Rightarrow> ('k, 'r) local_call \<Rightarrow> 'r \<times> ('p, 'k) proc" where
  "call_local st f = (case f (errno st, kern st) of (r, e, k) \<Rightarrow> (r, st\<lparr>errno := e, kern := k\<rparr>))"

subsection \<open>open\<close>

definition open_shim ::
  "('p, 'k) env \<Rightarrow> ('p, 'k) proc \<Rightarrow> byte list \<Rightarrow> cint \<Rightarrow> cint \<Rightarrow> (cint \<times> ('p, 'k) proc) option" where
  "open_shim E st pathname flags mode_arg =
     (let mode = (if flags AND O_CREAT \<noteq> 0 then mode_arg else 0) in
      case receiveResponse E (sendRequest E st (Open_req pathname flags mode)) of
        Some (Reply fd e, st') \<Rightarrow>
          Some (if fd \<noteq> - 1 then fd + FD_OFFSET else fd, st'\<lparr>errno := e\<rparr>)
      | _ \<Rightarrow> None)"

subsection \<open>read\<close>

text \<open>
  \<^verbatim>\<open>readHelper\<close> and \<^verbatim>\<open>writeHelper\<close> return an \<^verbatim>\<open>int\<close> widened to \<^verbatim>\<open>ssize_t\<close>. The loops assign
  it to a \<^verbatim>\<open>size_t\<close>, so that the test against \<open>-1\<close> is the test against the word of all
  ones, \<^verbatim>\<open>count -= bytes_read\<close> is a 64-bit subtraction that wraps around, and the
  \<^verbatim>\<open>int\<close> running total takes the low 32 bits of the sum. \<open>read_chunk\<close> and \<open>write_chunk\<close>
  are the conditional expressions that cut the remaining count to \<^verbatim>\<open>maxLen\<close>. A loop may run
  for ever; it is a partial function, and not returning is the value \<open>None\<close>. The bytes
  copied into the caller's buffer are not represented.
\<close>

definition readHelper ::
  "('p, 'k) env \<Rightarrow> ('p, 'k) proc \<Rightarrow> cint \<Rightarrow> size_t \<Rightarrow> (ssize_t \<times> ('p, 'k) proc) option" where
  "readHelper E st fd count =
     (case receiveResponse E (sendRequest E st (Read_req fd (ucast count))) of
        Some (Reply bytes_read e, st') \<Rightarrow>
          Some (if e = 0 then scast bytes_read else - 1, st'\<lparr>errno := e\<rparr>)
      | _ \<Rightarrow> None)"

definition read_chunk :: "size_t \<Rightarrow> size_t" where
  "read_chunk count = (let maxLen = MAX_MSG_LEN - 8 in if count > maxLen then maxLen else count)"

partial_function (option) read_loop ::
  "('p, 'k) env \<Rightarrow> cint \<Rightarrow> ('p, 'k) proc \<Rightarrow> size_t \<Rightarrow> cint \<Rightarrow> (ssize_t \<times> ('p, 'k) proc) option" where
  "read_loop E fd st count total_bytes_read =
     (if count \<noteq> 0 then
        (case readHelper E st fd (read_chunk count) of
           None \<Rightarrow> None
         | Some (bytes_read, st') \<Rightarrow>
             if bytes_read = - 1 then Some (- 1, st')
             else if bytes_read = 0 then Some (scast total_bytes_read, st')
             else read_loop E fd st' (count - bytes_read) (total_bytes_read + ucast bytes_read))
      else Some (scast total_bytes_read, st))"

definition read ::
  "('p, 'k) env \<Rightarrow> ('p, 'k) proc \<Rightarrow> cint \<Rightarrow> size_t \<Rightarrow> (ssize_t \<times> ('p, 'k) proc) option" where
  "read E st fd count =
     (if fd <s FD_OFFSET then
        (case call_local st (orig_read E fd count) of (r, st') \<Rightarrow> Some (scast r, st'))
      else read_loop E (fd - FD_OFFSET) st count 0)"

subsection \<open>write\<close>

definition writeHelper ::
  "('p, 'k) env \<Rightarrow> ('p, 'k) proc \<Rightarrow> cint \<Rightarrow> cint \<Rightarrow> size_t \<Rightarrow> (ssize_t \<times> ('p, 'k) proc) option" where
  "writeHelper E st fd off count =
     (case receiveResponse E (sendRequest E st (Write_req fd (ucast count) off)) of
        Some (Reply bytes_written e, st') \<Rightarrow>
          Some (if e = 0 then scast bytes_written else - 1, st'\<lparr>errno := e\<rparr>)
      | _ \<Rightarrow> None)"

definition write_chunk :: "size_t \<Rightarrow> size_t" where
  "write_chunk count = (let maxLen = MAX_MSG_LEN - 12 in if count > maxLen then maxLen else count)"

partial_function (option) write_loop ::
  "('p, 'k) env \<Rightarrow> cint \<Rightarrow> ('p, 'k) proc \<Rightarrow> size_t \<Rightarrow> cint \<Rightarrow> (ssize_t \<times> ('p, 'k) proc) option" where
  "write_loop E fd st count total_bytes_written =
     (if count \<noteq> 0 then
        (case writeHelper E st fd total_bytes_written (write_chunk count) of
           None \<Rightarrow> None
         | Some (bytes_written, st') \<Rightarrow>
             if bytes_written = - 1 then Some (- 1, st')
             else write_loop E fd st' (count - bytes_written)
                    (total_bytes_written + ucast bytes_written))
      else Some (if total_bytes_written = 0 then - 1 else scast total_bytes_written, st))"

definition write_shim ::
  "('p, 'k) env \<Rightarrow> ('p, 'k) proc \<Rightarrow> cint \<Rightarrow> size_t \<Rightarrow> (ssize_t \<times> ('p, 'k) proc) option" where
  "write_shim E st fd count =
     (if fd <s FD_OFFSET then
        (case call_local st (orig_write E fd count) of (r, st') \<Rightarrow> Some (scast r, st'))
      else write_loop E (fd - FD_OFFSET) st count 0)"

subsection \<open>close, lseek, stat, unlink, getdirentries\<close>

definition close ::
  "('p, 'k) env \<Rightarrow> ('p, 'k) proc \<Rightarrow> cint \<Rightarrow> (cint \<times> ('p, 'k) proc) option" where
  "close E st fd =
     (if fd <s FD_OFFSET then Some (call_local st (orig_close E fd))
      else
        (case receiveResponse E (sendRequest E st (Close_req (fd - FD_OFFSET))) of
           Some (Reply success e, st') \<Rightarrow> Some (success, st'\<lparr>errno := e\<rparr>)
         | _ \<Rightarrow> None))"

definition lseek ::
  "('p, 'k) env \<Rightarrow> ('p, 'k) proc \<Rightarrow> cint \<Rightarrow> off_t \<Rightarrow> cint \<Rightarrow> (ssize_t \<times> ('p, 'k) proc) option" where
  "lseek E st fd offset whence =
     (if fd <s FD_OFFSET then Some (call_local st (orig_lseek E fd offset whence))
      else
        (case receiveResponse E (sendRequest E st (Lseek_req (fd - FD_OFFSET) offset whence)) of
           Some (Lseek_reply new_offset e, st') \<Rightarrow> Some (new_offset, st'\<lparr>errno := e\<rparr>)
         | _ \<Rightarrow> None))"

definition stat ::
  "('p, 'k) env \<Rightarrow> ('p, 'k) proc \<Rightarrow> byte list \<Rightarrow> (cint \<times> ('p, 'k) proc) option" where
  "stat E st pathname =
     (case receiveResponse E (sendRequest E st (Stat_req pathname)) of
        Some (Reply success e, st') \<Rightarrow> Some (success, st'\<lparr>errno := e\<rparr>)
      | _ \<Rightarrow> None)"

definition unlink ::
  "('p, 'k) env \<Rightarrow> ('p, 'k) proc \<Rightarrow> byte list \<Rightarrow> (cint \<times> ('p, 'k) proc) option" where
  "unlink E st pathname =
     (case receiveResponse E (sendRequest E st (Unlink_req pathname)) of
        Some (Reply success e, st') \<Rightarrow> Some (success, st'\<lparr>errno := e\<rparr>)
      | _ \<Rightarrow> None)"

text \<open>
  After the header, \<^verbatim>\<open>getdirentries\<close> returns at once when the error number is not zero;
  otherwise it waits for \<^verbatim>\<open>bytes_read\<close> data bytes, the \<^verbatim>\<open>int\<close> converted to \<^verbatim>\<open>size_t\<close>.
\<close>

definition getdirentries ::
  "('p, 'k) env \<Rightarrow> ('p, 'k) proc \<Rightarrow> cint \<Rightarrow> size_t \<Rightarrow> off_t \<Rightarrow> (ssize_t \<times> ('p, 'k) proc) option" where
  "getdirentries E st fd nbyte basep =
     (if fd <s FD_OFFSET then Some (call_local st (orig_getdirentries E fd nbyte basep))
      else
        (case receiveResponse E
                (sendRequest E st (Getdirentries_req (fd - FD_OFFSET) (ucast nbyte) basep)) of
           Some (Reply bytes_read e, st') \<Rightarrow>
             if e \<noteq> 0 then Some (scast bytes_read, st'\<lparr>errno := e\<rparr>)
             else
               (case receiveData E (st'\<lparr>errno := e\<rparr>) (unat (scast bytes_read :: size_t)) of
                  None \<Rightarrow> None
                | Some st'' \<Rightarrow> Some (scast bytes_read, st''))
         | _ \<Rightarrow> None))"

section \<open>The directory-tree codec (server.c, mylib.c)\<close>

text \<open>
  Four-byte integers travel in the host's byte order, which is little-endian on the
  platform of the specification.
\<close>

definition le32 :: "cint \<Rightarrow> byte list" where
  "le32 w = [ucast w, ucast (drop_bit 8 w), ucast (drop_bit 16 w), ucast (drop_bit 24 w)]"

definition le32_dec :: "byte list \<Rightarrow> cint" where
  "le32_dec bs =
     ucast (bs ! 0) OR push_bit 8 (ucast (bs ! 1)) OR push_bit 16 (ucast (bs ! 2))
       OR push_bit 24 (ucast (bs ! 3))"

definition INT_MAX :: nat where
  "INT_MAX = 2147483647"

text \<open>
  \<^verbatim>\<open>struct dirtreenode\<close> of \<^verbatim>\<open>dirtree.h\<close>: a name, the \<^verbatim>\<open>int\<close> field \<^verbatim>\<open>num_subdirs\<close> and
  the vector \<^verbatim>\<open>subdirs\<close>. A node is never the null pointer. The name is held as the bytes
  at \<^verbatim>\<open>node->name\<close>; \<open>c_string\<close> is the part \<^verbatim>\<open>strlen\<close> measures and \<^verbatim>\<open>memcpy\<close> then copies,
  the bytes before the first NUL.
\<close>

datatype dirtreenode =
  Node (name: "byte list") (num_subdirs: cint) (subdirs: "dirtreenode list")

definition c_string :: "byte list \<Rightarrow> byte list" where
  "c_string s = takeWhile (\<lambda>c. c \<noteq> 0) s"

text \<open>
  A buffer is a byte array of fixed length and \<^verbatim>\<open>*offset\<close> an \<^verbatim>\<open>int\<close>. \<open>store\<close> copies
  bytes into the buffer at an offset; writing past the end of the array, or moving the
  offset past \<^verbatim>\<open>INT_MAX\<close>, is undefined in C and \<open>None\<close> here.
\<close>

definition store :: "byte list \<Rightarrow> nat \<Rightarrow> byte list \<Rightarrow> byte list option" where
  "store buf off bs =
     (if off + length bs \<le> length buf \<and> off + length bs \<le> INT_MAX
      then Some (take off buf @ bs @ drop (off + length bs) buf) else None)"

text \<open>
  \<^verbatim>\<open>serialize_dirtree\<close> returns the buffer and the offset it leaves behind.
  \<open>serialize_subdirs kids k\<close> is its \<^verbatim>\<open>for\<close> loop with \<open>k\<close> iterations to go and \<open>kids\<close>
  the rest of the vector; an iteration with no element left reads past the vector.
  The loop runs \<open>nat (sint n)\<close> times: not at all when \<^verbatim>\<open>num_subdirs\<close> is negative.
\<close>

fun serialize_dirtree :: "dirtreenode \<Rightarrow> byte list \<Rightarrow> nat \<Rightarrow> (byte list \<times> nat) option"
  and serialize_subdirs ::
    "dirtreenode list \<Rightarrow> nat \<Rightarrow> byte list \<Rightarrow> nat \<Rightarrow> (byte list \<times> nat) option"
where
  "serialize_dirtree (Node nm n kids) buf offset =
     (case store buf offset (c_string nm @ [0]) of
        None \<Rightarrow> None
      | Some buf1 \<Rightarrow>
          (let offset1 = offset + length (c_string nm) + 1 in
           case store buf1 offset1 (le32 n) of
             None \<Rightarrow> None
           | Some buf2 \<Rightarrow> serialize_subdirs kids (nat (sint n)) buf2 (offset1 + 4)))"
| "serialize_subdirs kids 0 buf offset = Some (buf, offset)"
| "serialize_subdirs [] (Suc k) buf offset = None"
| "serialize_subdirs (t # kids) (Suc k) buf offset =
     (case serialize_dirtree t buf offset of
        None \<Rightarrow> None
      | Some (buf1, offset1) \<Rightarrow> serialize_subdirs kids k buf1 offset1)"

text \<open>
  \<^verbatim>\<open>deserialize_dirtree\<close> returns the node it fills in and the offset it leaves behind.
  \<^verbatim>\<open>strlen\<close> and the four-byte \<^verbatim>\<open>memcpy\<close> must stay inside the buffer (\<open>None\<close> otherwise);
  \<open>deserialize_subdirs buf k\<close> is the \<^verbatim>\<open>for\<close> loop with \<open>k\<close> iterations to go.
\<close>

function (domintros) deserialize_dirtree :: "byte list \<Rightarrow> nat \<Rightarrow> (dirtreenode \<times> nat) option"
  and deserialize_subdirs :: "byte list \<Rightarrow> nat \<Rightarrow> nat \<Rightarrow> (dirtreenode list \<times> nat) option"
where
  "deserialize_dirtree buf offset =
     (let nm = c_string (drop offset buf);
          offset1 = offset + length nm + 1 in
      if length buf < offset1 + 4 \<or> INT_MAX < offset1 + 4 then None
      else
        (let n = le32_dec (take 4 (drop offset1 buf)) in
         case deserialize_subdirs buf (nat (sint n)) (offset1 + 4) of
           None \<Rightarrow> None
         | Some (kids, offset2) \<Rightarrow> Some (Node nm n kids, offset2)))"
| "deserialize_subdirs buf 0 offset = Some ([], offset)"
| "deserialize_subdirs buf (Suc k) offset =
     (case deserialize_dirtree buf offset of
        None \<Rightarrow> None
      | Some (t, offset1) \<Rightarrow>
          (case deserialize_subdirs buf k offset1 of
             None \<Rightarrow> None
           | Some (kids, offset2) \<Rightarrow> Some (t # kids, offset2)))"
  by pat_completeness auto

text \<open>
  Every node read takes at least five bytes, so the offset grows and the recursion
  ends at the end of the buffer.
\<close>

lemma deserialize_offset_mono:
  "deserialize_dirtree_deserialize_subdirs_dom (Inl (buf, offset)) \<Longrightarrow>
     deserialize_dirtree buf offset = Some (t, offset') \<Longrightarrow> offset \<le> offset'"
  "deserialize_dirtree_deserialize_subdirs_dom (Inr (buf, k, offset)) \<Longrightarrow>
     deserialize_subdirs buf k offset = Some (ts, offset') \<Longrightarrow> offset \<le> offset'"
proof (induction buf offset and buf k offset arbitrary: t offset' and ts offset'
       rule: deserialize_dirtree_deserialize_subdirs.pinduct)
  case (1 buf offset)
  define nm where "nm = c_string (drop offset buf)"
  define offset1 where "offset1 = offset + length nm + 1"
  define n where "n = le32_dec (take 4 (drop offset1 buf))"
  from "1.prems" "1.hyps" have ok: "\<not> (length buf < offset1 + 4 \<or> INT_MAX < offset1 + 4)"
    by (simp add: deserialize_dirtree.psimps Let_def nm_def offset1_def split: if_splits)
  from "1.prems" "1.hyps" ok obtain kids where
    "deserialize_subdirs buf (nat (sint n)) (offset1 + 4) = Some (kids, offset')"
    by (simp add: deserialize_dirtree.psimps Let_def nm_def offset1_def n_def
             split: if_splits option.splits prod.splits)
  with "1.IH" [OF nm_def offset1_def ok n_def] have "offset1 + 4 \<le> offset'" .
  then show ?case by (simp add: offset1_def)
next
  case (2 buf offset)
  then show ?case by (simp add: deserialize_subdirs.psimps)
next
  case (3 buf k offset)
  from "3.prems" "3.hyps" obtain t offset1 kids where
    a: "deserialize_dirtree buf offset = Some (t, offset1)" and
    b: "deserialize_subdirs buf k offset1 = Some (kids, offset')"
    by (simp add: deserialize_subdirs.psimps split: option.splits prod.splits)
  from "3.IH"(1) [OF a] have "offset \<le> offset1" .
  moreover from "3.IH"(2) [OF a refl b] have "offset1 \<le> offset'" .
  ultimately show ?case by simp
qed

termination deserialize_dirtree
proof (relation "measures [\<lambda>x. case x of Inl (buf, offset) \<Rightarrow> length buf - offset
                                         | Inr (buf, k, offset) \<Rightarrow> length buf - offset,
                               \<lambda>x. case x of Inl _ \<Rightarrow> 0 | Inr (buf, k, offset) \<Rightarrow> Suc k]",
       goal_cases)
  case 1
  then show ?case by simp
next
  case (2 buf offset nm offset1 n)
  then show ?case by auto
next
  case (3 buf k offset)
  then show ?case by simp
next
  case (4 buf k offset x2 t offset1)
  then have "offset \<le> offset1"
    using deserialize_offset_mono(1) [of buf offset t offset1] by simp
  then show ?case by auto
qed

declare deserialize_dirtree.simps [simp del]

text \<open>
  The trees of the round-trip law: names non-empty and free of NUL, child counts
  non-negative and equal to the number of children.
\<close>

fun wf_dirtree :: "dirtreenode \<Rightarrow> bool" where
  "wf_dirtree (Node nm n kids) =
     (nm \<noteq> [] \<and> 0 \<notin> set nm \<and> 0 \<le>s n \<and> nat (sint n) = length kids
      \<and> list_all wf_dirtree kids)"

text \<open>The bytes of a tree in pre-order, and a buffer with a run of bytes replaced.\<close>

fun tree_bytes :: "dirtreenode \<Rightarrow> byte list" where
  "tree_bytes (Node nm n kids) = c_string nm @ [0] @ le32 n @ concat (map tree_bytes kids)"

definition splice :: "byte list \<Rightarrow> nat \<Rightarrow> byte list \<Rightarrow> byte list" where
  "splice buf off bs = take off buf @ bs @ drop (off + length bs) buf"

section \<open>The server's reply to getdirentries (server.c)\<close>

text \<open>
  The state of a session handler: \<^verbatim>\<open>errno\<close>, which \<^verbatim>\<open>server.c\<close> never assigns, the error
  number with which \<^verbatim>\<open>send\<close> fails on the session socket (\<open>None\<close> while the socket takes
  data), the buffers handed to \<^verbatim>\<open>send\<close> on it, in order, and the kernel's state.
  \<open>send_sess\<close> is \<^verbatim>\<open>send(sessfd, buf, len, 0)\<close>: it returns \<open>len\<close>, or it returns \<open>-1\<close> and
  sets \<^verbatim>\<open>errno\<close> when the socket is down; a length past the end of the array is outside the
  model.
\<close>

record 'k srv =
  s_errno :: cint
  s_send_fails :: "cint option"
  s_sent :: "byte list list"
  s_kern :: 'k

definition send_sess :: "'k srv \<Rightarrow> byte list \<Rightarrow> size_t \<Rightarrow> (ssize_t \<times> 'k srv) option" where
  "send_sess st buf len =
     (if unat len \<le> length buf then
        Some (case s_send_fails st of
                None \<Rightarrow> (len, st\<lparr>s_sent := s_sent st @ [take (unat len) buf]\<rparr>)
              | Some e \<Rightarrow> (- 1, st\<lparr>s_errno := e\<rparr>))
      else None)"

text \<open>
  The server's own \<^verbatim>\<open>getdirentries\<close> is a parameter \<open>G\<close>: from the descriptor, \<^verbatim>\<open>nbyte\<close>,
  \<^verbatim>\<open>basep\<close>, \<^verbatim>\<open>errno\<close> and the kernel state it gives the return value, the bytes it stored
  at the start of \<^verbatim>\<open>retBuf\<close>, and the new \<^verbatim>\<open>errno\<close> and kernel state.
  \<^verbatim>\<open>handle_getdirentries\<close> sends the header itself and returns \<^verbatim>\<open>bytes_read\<close>, or \<open>0\<close> when
  the send failed; the result carries \<^verbatim>\<open>retBuf\<close> as the call left it.
\<close>

type_synonym 'k sys_getdirentries =
  "cint \<Rightarrow> cint \<Rightarrow> off_t \<Rightarrow> cint \<times> 'k \<Rightarrow> ssize_t \<times> byte list \<times> cint \<times> 'k"

definition handle_getdirentries ::
  "'k sys_getdirentries \<Rightarrow> 'k srv \<Rightarrow> cint \<Rightarrow> cint \<Rightarrow> off_t \<Rightarrow> byte list
     \<Rightarrow> (size_t \<times> byte list \<times> 'k srv) option" where
  "handle_getdirentries G st fd nbyte basep retBuf =
     (case G fd nbyte basep (s_errno st, s_kern st) of
        (bytes_read, data, e, k) \<Rightarrow>
          if length data \<le> length retBuf then
            (let retBuf' = data @ drop (length data) retBuf;
                 st1 = st\<lparr>s_errno := e, s_kern := k\<rparr>;
                 retBuf1 = le32 (ucast bytes_read) @ le32 (s_errno st1) in
             case send_sess st1 retBuf1 8 of
               None \<Rightarrow> None
             | Some (rv, st2) \<Rightarrow>
                 if rv = - 1 then Some (0, retBuf', st2) else Some (bytes_read, retBuf', st2))
          else None)"

text \<open>
  The body of \<^verbatim>\<open>main\<close>'s receive loop for opcode 7: the handler, then
  \<^verbatim>\<open>retBuf[retLen] = '\0'\<close> and the \<^verbatim>\<open>send\<close> of \<^verbatim>\<open>retLen\<close> bytes of \<^verbatim>\<open>retBuf\<close>, whatever the
  error number. \<^verbatim>\<open>retBuf\<close> is the array of \<^verbatim>\<open>MAX_MSG_LEN + 1\<close> bytes that \<^verbatim>\<open>main\<close> declares;
  an index outside it is undefined.
\<close>

definition main_getdirentries ::
  "'k sys_getdirentries \<Rightarrow> 'k srv \<Rightarrow> cint \<Rightarrow> cint \<Rightarrow> off_t \<Rightarrow> byte list \<Rightarrow> 'k srv option" where
  "main_getdirentries G st fd nbyte basep retBuf =
     (case handle_getdirentries G st fd nbyte basep retBuf of
        None \<Rightarrow> None
      | Some (retLen, retBuf', st1) \<Rightarrow>
          if unat retLen < length retBuf' then
            map_option snd (send_sess st1 (retBuf'[unat retLen := 0]) retLen)
          else None)"

section \<open>Environments to run the shim in\<close>

text \<open>
  Three peers: one that plays back a list of replies and then falls silent, one that
  reports every request as done in full (it answers with the count field of the last
  request and error number 0), and one that gives the same reply for ever. The local
  implementations they come with are fixed functions: a read of 7 bytes, a write of the
  whole count, a close that fails with error 9, a seek to the given offset and an empty
  directory read.
\<close>

definition local_env ::
  "('p \<Rightarrow> request \<Rightarrow> 'p) \<Rightarrow> ('p \<Rightarrow> (reply \<times> 'p) option) \<Rightarrow> ('p, unit) env" where
  "local_env d e =
     \<lparr>deliver = d, emit = e, emit_data = (\<lambda>p n. Some p),
      orig_read = (\<lambda>fd count (er, k). (7, er, k)),
      orig_write = (\<lambda>fd count (er, k). (ucast count, er, k)),
      orig_close = (\<lambda>fd (er, k). (- 1, 9, k)),
      orig_lseek = (\<lambda>fd offset whence (er, k). (offset, er, k)),
      orig_getdirentries = (\<lambda>fd nbyte basep (er, k). (0, er, k))\<rparr>"

definition scripted :: "(reply list, unit) env" where
  "scripted = local_env (\<lambda>p rq. p) (\<lambda>p. case p of [] \<Rightarrow> None | r # rs \<Rightarrow> Some (r, rs))"

fun request_count :: "request \<Rightarrow> cint" where
  "request_count (Read_req fd count) = count"
| "request_count (Write_req fd count off) = count"
| "request_count _ = 0"

definition obedient :: "(cint, unit) env" where
  "obedient = local_env (\<lambda>p rq. request_count rq) (\<lambda>p. Some (Reply p 0, p))"

definition repeating :: "reply \<Rightarrow> (unit, unit) env" where
  "repeating r = local_env (\<lambda>p rq. p) (\<lambda>p. Some (r, p))"

definition start :: "'p \<Rightarrow> ('p, unit) proc" where
  "start p = \<lparr>errno = 0, sent = [], rcvd = [], peer = p, kern = ()\<rparr>"

section \<open>Properties of the replies and of the peer\<close>

fun reply_bytes :: "reply \<Rightarrow> cint" where
  "reply_bytes (Reply b e) = b"
| "reply_bytes (Lseek_reply v e) = ucast v"

fun reply_errno :: "reply \<Rightarrow> cint" where
  "reply_errno (Reply b e) = e"
| "reply_errno (Lseek_reply v e) = e"


definition aborting :: "reply \<Rightarrow> bool" where
  "aborting r = (reply_errno r \<noteq> 0 \<or> reply_bytes r = - 1)"

text \<open>The accumulated count: the sum of the bytes values, in \<^verbatim>\<open>int\<close> arithmetic.\<close>

definition accumulated :: "reply list \<Rightarrow> cint" where
  "accumulated rs = sum_list (map reply_bytes rs)"



text \<open>
  What a run of the write loop that started with the running total \<open>tot\<close> and received
  the replies \<open>rs\<close> returns and leaves in \<^verbatim>\<open>errno\<close>: either the last reply made the helper
  fail and no earlier one did, or none did. The read loop differs in the value it returns
  when no reply made the helper fail.
\<close>

definition write_outcome ::
  "cint \<Rightarrow> cint \<Rightarrow> reply list \<Rightarrow> ssize_t \<Rightarrow> cint \<Rightarrow> bool" where
  "write_outcome tot e0 rs r e' =
     (if rs \<noteq> [] \<and> aborting (last rs)
      then \<not> list_ex aborting (butlast rs) \<and> r = - 1 \<and> e' = reply_errno (last rs)
      else \<not> list_ex aborting rs
           \<and> r = (if tot + accumulated rs = 0 then - 1 else scast (tot + accumulated rs))
           \<and> e' = (if rs = [] then e0 else 0))"

definition read_outcome ::
  "cint \<Rightarrow> cint \<Rightarrow> reply list \<Rightarrow> ssize_t \<Rightarrow> cint \<Rightarrow> bool" where
  "read_outcome tot e0 rs r e' =
     (if rs \<noteq> [] \<and> aborting (last rs)
      then \<not> list_ex aborting (butlast rs) \<and> r = - 1 \<and> e' = reply_errno (last rs)
      else \<not> list_ex aborting rs
           \<and> r = scast (tot + accumulated rs)
           \<and> e' = (if rs = [] then e0 else 0))"

text \<open>
  Peers, by how they answer a write sub-frame whose count field \<open>c\<close> is one the loop can
  send (\<open>0 < c \<le> MAX_MSG_LEN - 12\<close>). \<open>full_success\<close>: the reply reports \<open>c\<close> bytes written
  and error number 0. \<open>progressing\<close>: the reply carries a non-zero error number or a
  positive bytes-written value. \<open>conforming\<close>: moreover the bytes-written value is at most
  \<open>c\<close>, as the value of a \<^verbatim>\<open>write\<close> of \<open>c\<close> bytes is.
\<close>

definition full_success :: "('p, 'k) env \<Rightarrow> bool" where
  "full_success E =
     (\<forall>p fd c off. c \<noteq> 0 \<and> c \<le> 4084 \<longrightarrow>
        (\<exists>p'. emit E (deliver E p (Write_req fd c off)) = Some (Reply c 0, p')))"

definition progressing :: "('p, 'k) env \<Rightarrow> bool" where
  "progressing E =
     (\<forall>p fd c off. c \<noteq> 0 \<and> c \<le> 4084 \<longrightarrow>
        (\<exists>b e p'. emit E (deliver E p (Write_req fd c off)) = Some (Reply b e, p')
                  \<and> (e \<noteq> 0 \<or> 0 <s b)))"

definition conforming :: "('p, 'k) env \<Rightarrow> bool" where
  "conforming E =
     (\<forall>p fd c off. c \<noteq> 0 \<and> c \<le> 4084 \<longrightarrow>
        (\<exists>b e p'. emit E (deliver E p (Write_req fd c off)) = Some (Reply b e, p')
                  \<and> (e \<noteq> 0 \<or> (0 <s b \<and> b \<le> c))))"

section \<open>Conversions between the integer types\<close>

lemma sint_scast_int: "sint (scast (r :: cint) :: ssize_t) = sint r"
  by (simp add: sint_up_scast is_up)

lemma ucast_scast_int: "ucast (scast (b :: cint) :: ssize_t) = b"
  by (rule bit_word_eqI) (auto simp: bit_simps)

lemma scast_int_eq_iff: "(scast (a :: cint) :: ssize_t) = scast b \<longleftrightarrow> a = b"
proof
  assume "(scast a :: ssize_t) = scast b"
  then have "ucast (scast a :: ssize_t) = (ucast (scast b :: ssize_t) :: cint)" by simp
  then show "a = b" by (simp only: ucast_scast_int)
qed simp

lemma scast_int_minus1: "(scast (b :: cint) :: ssize_t) = - 1 \<longleftrightarrow> b = - 1"
  using scast_int_eq_iff [of b "- 1"] by simp

lemma scast_int_zero: "(scast (b :: cint) :: ssize_t) = 0 \<longleftrightarrow> b = 0"
  using scast_int_eq_iff [of b 0] by simp

lemma scast_pos_ucast: "0 <s (b :: cint) \<Longrightarrow> (scast b :: ssize_t) = ucast b"
proof -
  assume "0 <s b"
  then have "\<not> sint b < 0" by (simp add: word_sless_alt)
  then have nb: "\<not> bit b (LENGTH(32) - Suc 0)" by (simp only: bit_last_iff not_False_eq_True)
  show ?thesis
    by (rule bit_word_eqI) (use nb in \<open>auto simp: bit_word_scast_iff bit_simps\<close>)
qed

lemma unat_scast_pos: "0 <s (b :: cint) \<Longrightarrow> unat (scast b :: ssize_t) = unat b"
  by (simp add: scast_pos_ucast unsigned_ucast_eq take_bit_nat_eq_self
        order_less_le_trans [OF unsigned_less])

lemma unat_pos: "0 <s (b :: cint) \<Longrightarrow> 0 < unat b"
  by (metis signed.less_irrefl unat_gt_0)

lemma unat_ucast_small: "(c :: size_t) \<le> 4096 \<Longrightarrow> unat (ucast c :: cint) = unat c"
proof -
  assume "c \<le> 4096"
  then have "unat c \<le> 4096" by (simp add: word_le_nat_alt)
  then show ?thesis by (simp add: unsigned_ucast_eq take_bit_nat_eq_self)
qed

lemma sint_add_offset:
  "0 \<le>s (fd :: cint) \<Longrightarrow> sint fd \<le> 2147483647 - 5000 \<Longrightarrow> sint (fd + 5000) = sint fd + 5000"
  by (simp add: word_sle_eq sint_word_ariths signed_take_bit_int_eq_self)

section \<open>The descriptor returned by open\<close>

text \<open>
  Claim C1. Whatever reply the peer gives to a remote open, with descriptor field
  \<open>server_fd\<close> and error number \<open>e\<close>, the shim's open returns, stores \<open>e\<close> in \<^verbatim>\<open>errno\<close>, and its
  value is \<open>-1\<close>, unchanged, when \<open>server_fd\<close> is \<open>-1\<close> and \<open>server_fd + 5000\<close> when
  \<open>server_fd\<close> is not negative. Hence, for a reply whose descriptor is \<open>-1\<close> or not
  negative, the value returned is \<open>-1\<close> or \<open>s + 5000\<close> for a non-negative \<open>s\<close>. The sum is
  the \<^verbatim>\<open>int\<close> addition of the code; it is the sum of the integers as long as \<open>server_fd\<close> is
  at most \<^verbatim>\<open>INT_MAX\<close> - 5000.
\<close>

theorem open_return:
  assumes "receiveResponse E (sendRequest E st
             (Open_req pathname flags (if flags AND O_CREAT \<noteq> 0 then mode_arg else 0)))
           = Some (Reply server_fd e, st1)"
  shows "\<exists>ret. open_shim E st pathname flags mode_arg = Some (ret, st1\<lparr>errno := e\<rparr>)
           \<and> (server_fd = - 1 \<longrightarrow> ret = - 1)
           \<and> (0 \<le>s server_fd \<longrightarrow> ret = server_fd + 5000)
           \<and> (0 \<le>s server_fd \<and> sint server_fd \<le> 2147483647 - 5000
                \<longrightarrow> sint ret = sint server_fd + 5000)
           \<and> (server_fd = - 1 \<or> 0 \<le>s server_fd
                \<longrightarrow> ret = - 1 \<or> (\<exists>s. 0 \<le>s s \<and> ret = s + 5000))"
proof -
  have neg: "\<not> 0 \<le>s (- 1 :: cint)"
    by (simp add: word_sle_eq)
  show ?thesis
    using assms neg sint_add_offset [of server_fd]
    by (auto simp: open_shim_def Let_def FD_OFFSET_def)
qed

theorem open_return_witness:
  "open_shim scripted (start [Reply 3 0]) [47, 120] 0 0
     = Some (5003, \<lparr>errno = 0, sent = [Open_req [47, 120] 0 0], rcvd = [Reply 3 0],
                     peer = [], kern = ()\<rparr>)
   \<and> open_shim scripted (start [Reply (- 1) 2]) [47, 120] 0 0
     = Some (- 1, \<lparr>errno = 2, sent = [Open_req [47, 120] 0 0], rcvd = [Reply (- 1) 2],
                    peer = [], kern = ()\<rparr>)"
  using open_return [of scripted "start [Reply 3 0]" "[47, 120]" 0 0 3 0
          "\<lparr>errno = 0, sent = [Open_req [47, 120] 0 0], rcvd = [Reply 3 0], peer = [], kern = ()\<rparr>"]
        open_return [of scripted "start [Reply (- 1) 2]" "[47, 120]" 0 0 "- 1" 2
          "\<lparr>errno = 0, sent = [Open_req [47, 120] 0 0], rcvd = [Reply (- 1) 2], peer = [], kern = ()\<rparr>"]
  by (simp add: scripted_def local_env_def start_def sendRequest_def receiveResponse_def
        word_sle_eq)

section \<open>Local descriptors\<close>

text \<open>
  Claim C6. For a descriptor below 5000, each of read, write, close, lseek and
  getdirentries returns what the local implementation returns (an \<^verbatim>\<open>int\<close> result widened
  to \<^verbatim>\<open>ssize_t\<close> keeps its value), leaves \<^verbatim>\<open>errno\<close> and the kernel state as the local
  implementation left them, and does nothing on the socket: no request is sent, no reply
  received, and the peer's state is the same.
\<close>

theorem local_descriptor_delegates:
  assumes "fd <s FD_OFFSET"
  shows "(\<exists>r st'. read E st fd count = Some (scast r, st') \<and> sint (scast r :: ssize_t) = sint r
            \<and> orig_read E fd count (errno st, kern st) = (r, errno st', kern st')
            \<and> sent st' = sent st \<and> rcvd st' = rcvd st \<and> peer st' = peer st)
       \<and> (\<exists>r st'. write_shim E st fd count = Some (scast r, st') \<and> sint (scast r :: ssize_t) = sint r
            \<and> orig_write E fd count (errno st, kern st) = (r, errno st', kern st')
            \<and> sent st' = sent st \<and> rcvd st' = rcvd st \<and> peer st' = peer st)
       \<and> (\<exists>r st'. close E st fd = Some (r, st')
            \<and> orig_close E fd (errno st, kern st) = (r, errno st', kern st')
            \<and> sent st' = sent st \<and> rcvd st' = rcvd st \<and> peer st' = peer st)
       \<and> (\<exists>r st'. lseek E st fd offset whence = Some (r, st')
            \<and> orig_lseek E fd offset whence (errno st, kern st) = (r, errno st', kern st')
            \<and> sent st' = sent st \<and> rcvd st' = rcvd st \<and> peer st' = peer st)
       \<and> (\<exists>r st'. getdirentries E st fd count basep = Some (r, st')
            \<and> orig_getdirentries E fd count basep (errno st, kern st) = (r, errno st', kern st')
            \<and> sent st' = sent st \<and> rcvd st' = rcvd st \<and> peer st' = peer st)"
proof (intro conjI)
  show "\<exists>r st'. read E st fd count = Some (scast r, st') \<and> sint (scast r :: ssize_t) = sint r
            \<and> orig_read E fd count (errno st, kern st) = (r, errno st', kern st')
            \<and> sent st' = sent st \<and> rcvd st' = rcvd st \<and> peer st' = peer st"
    using assms
    by (cases "orig_read E fd count (errno st, kern st)")
       (simp add: read_def call_local_def sint_scast_int)
  show "\<exists>r st'. write_shim E st fd count = Some (scast r, st') \<and> sint (scast r :: ssize_t) = sint r
            \<and> orig_write E fd count (errno st, kern st) = (r, errno st', kern st')
            \<and> sent st' = sent st \<and> rcvd st' = rcvd st \<and> peer st' = peer st"
    using assms
    by (cases "orig_write E fd count (errno st, kern st)")
       (simp add: write_shim_def call_local_def sint_scast_int)
  show "\<exists>r st'. close E st fd = Some (r, st')
            \<and> orig_close E fd (errno st, kern st) = (r, errno st', kern st')
            \<and> sent st' = sent st \<and> rcvd st' = rcvd st \<and> peer st' = peer st"
    using assms
    by (cases "orig_close E fd (errno st, kern st)") (simp add: close_def call_local_def)
  show "\<exists>r st'. lseek E st fd offset whence = Some (r, st')
            \<and> orig_lseek E fd offset whence (errno st, kern st) = (r, errno st', kern st')
            \<and> sent st' = sent st \<and> rcvd st' = rcvd st \<and> peer st' = peer st"
    using assms
    by (cases "orig_lseek E fd offset whence (errno st, kern st)")
       (simp add: lseek_def call_local_def)
  show "\<exists>r st'. getdirentries E st fd count basep = Some (r, st')
            \<and> orig_getdirentries E fd count basep (errno st, kern st) = (r, errno st', kern st')
            \<and> sent st' = sent st \<and> rcvd st' = rcvd st \<and> peer st' = peer st"
    using assms
    by (cases "orig_getdirentries E fd count basep (errno st, kern st)")
       (simp add: getdirentries_def call_local_def)
qed

theorem local_descriptor_delegates_witness:
  "(3 :: cint) <s FD_OFFSET
   \<and> read scripted (start []) 3 10 = Some (7, start [])
   \<and> write_shim scripted (start []) 3 10 = Some (10, start [])
   \<and> close scripted (start []) 3 = Some (- 1, (start [])\<lparr>errno := 9\<rparr>)
   \<and> lseek scripted (start []) 3 12 0 = Some (12, start [])
   \<and> getdirentries scripted (start []) 3 10 0 = Some (0, start [])"
proof -
  have lt: "(3 :: cint) <s FD_OFFSET"
    by (simp add: FD_OFFSET_def word_sless_alt)
  show ?thesis
    using lt local_descriptor_delegates [OF lt, of scripted "start []" 10 12 0 0]
    by (simp add: scripted_def local_env_def start_def read_def write_shim_def close_def
          lseek_def getdirentries_def call_local_def)
qed

section \<open>A remote read of nothing\<close>

text \<open>
  Claim C10. On a remote descriptor (5000 or more), read with count 0 returns 0 and
  leaves the process state as it was: no request is sent.
\<close>

theorem read_zero_count:
  assumes "\<not> fd <s FD_OFFSET"
  shows "read E st fd 0 = Some (0, st)"
  using assms by (simp add: read_def read_loop.simps)

theorem read_zero_count_witness:
  "\<not> (5003 :: cint) <s FD_OFFSET \<and> read scripted (start [Reply 1 0]) 5003 0 = Some (0, start [Reply 1 0])
   \<and> sent (start [Reply 1 0] :: (reply list, unit) proc) = []"
proof -
  have ge: "\<not> (5003 :: cint) <s FD_OFFSET"
    by (simp add: FD_OFFSET_def word_sless_alt)
  show ?thesis
    using ge read_zero_count [OF ge, of scripted "start [Reply 1 0]"] by (simp add: start_def)
qed

section \<open>The directory-tree round trip\<close>

lemma store_splice:
  "store buf off bs = Some buf' \<longleftrightarrow>
     off + length bs \<le> length buf \<and> off + length bs \<le> INT_MAX \<and> buf' = splice buf off bs"
  by (auto simp: store_def splice_def)

lemma length_splice: "off + length bs \<le> length buf \<Longrightarrow> length (splice buf off bs) = length buf"
  by (simp add: splice_def)

lemma splice_splice:
  "off + length xs + length ys \<le> length buf \<Longrightarrow>
     splice (splice buf off xs) (off + length xs) ys = splice buf off (xs @ ys)"
  by (cases xs) (auto simp: splice_def min_def ac_simps)

lemma splice_nil: "off \<le> length buf \<Longrightarrow> splice buf off [] = buf"
  by (simp add: splice_def)

lemma le32_length: "length (le32 w) = 4"
  by (simp add: le32_def)

lemma le32_roundtrip: "le32_dec (le32 w) = w"
proof (rule bit_word_eqI)
  fix n assume "n < LENGTH(32)"
  then have n: "n < 32" by simp
  consider "n < 8" | "8 \<le> n" "n < 16" | "16 \<le> n" "n < 24" | "24 \<le> n" "n < 32"
    using n by linarith
  then show "bit (le32_dec (le32 w)) n = bit w n"
    by cases (auto simp add: le32_def le32_dec_def bit_simps)
qed

lemma c_string_prefix: "0 \<notin> set nm \<Longrightarrow> c_string (nm @ 0 # rest) = nm"
  by (induction nm) (auto simp: c_string_def)

lemma c_string_id: "0 \<notin> set nm \<Longrightarrow> c_string nm = nm"
  by (induction nm) (auto simp: c_string_def)

lemma serialize_subdirs_numeral:
  "serialize_subdirs kids (numeral v) buf off
     = serialize_subdirs kids (Suc (pred_numeral v)) buf off"
  by (simp add: numeral_eq_Suc)

text \<open>What serialization leaves in the buffer: the bytes of the tree, at the offset.\<close>

lemma serialize_image:
  "serialize_dirtree t buf off = Some (buf', off') \<Longrightarrow> wf_dirtree t \<Longrightarrow>
     off' = off + length (tree_bytes t) \<and> off' \<le> length buf \<and> off' \<le> INT_MAX \<and>
     buf' = splice buf off (tree_bytes t)"
  "serialize_subdirs kids k buf off = Some (buf', off') \<Longrightarrow> list_all wf_dirtree kids \<Longrightarrow>
     k = length kids \<Longrightarrow> off \<le> length buf \<Longrightarrow> off \<le> INT_MAX \<Longrightarrow>
     off' = off + length (concat (map tree_bytes kids)) \<and> off' \<le> length buf \<and> off' \<le> INT_MAX \<and>
     buf' = splice buf off (concat (map tree_bytes kids))"
proof (induction t buf off and kids k buf off arbitrary: buf' off' and buf' off'
       rule: serialize_dirtree_serialize_subdirs.induct)
  case (1 nm n kids buf offset)
  let ?h = "c_string nm @ [0]"
  let ?o1 = "offset + length (c_string nm) + 1"
  from "1.prems" obtain buf1 buf2 where
    s1: "store buf offset ?h = Some buf1" and
    s2: "store buf1 ?o1 (le32 n) = Some buf2" and
    s3: "serialize_subdirs kids (nat (sint n)) buf2 (?o1 + 4) = Some (buf', off')"
    by (auto simp: Let_def split: option.splits)
  from s1 have b1: "offset + length ?h \<le> length buf" "buf1 = splice buf offset ?h"
    by (simp_all add: store_splice)
  from s2 b1 have b2: "?o1 + 4 \<le> length buf" "?o1 + 4 \<le> INT_MAX"
      "buf2 = splice buf1 ?o1 (le32 n)"
    by (simp_all add: store_splice le32_length length_splice)
  have b3: "buf2 = splice buf offset (?h @ le32 n)"
    using b1 b2 splice_splice [of offset ?h "le32 n" buf] by (simp add: le32_length)
  have len2: "length buf2 = length buf"
    using b2(1) b3 by (simp add: length_splice le32_length)
  from "1.prems"(2) have wfk: "list_all wf_dirtree kids" "nat (sint n) = length kids"
    by simp_all
  have ih: "off' = ?o1 + 4 + length (concat (map tree_bytes kids)) \<and> off' \<le> length buf2
      \<and> off' \<le> INT_MAX \<and> buf' = splice buf2 (?o1 + 4) (concat (map tree_bytes kids))"
    using "1.IH" [OF s1 refl s2 s3 wfk] b2 len2 by simp
  have o2: "?o1 + 4 = offset + length (?h @ le32 n)"
    by (simp add: le32_length)
  have "splice (splice buf offset (?h @ le32 n)) (offset + length (?h @ le32 n))
          (concat (map tree_bytes kids))
        = splice buf offset ((?h @ le32 n) @ concat (map tree_bytes kids))"
    using ih len2 by (intro splice_splice) (simp add: le32_length)
  then have "buf' = splice buf offset ((?h @ le32 n) @ concat (map tree_bytes kids))"
    using ih b3 unfolding o2 by simp
  then show ?case using ih len2 by (simp add: le32_length)
next
  case (2 kids buf offset)
  then show ?case by (simp add: splice_nil)
next
  case (3 k buf offset)
  then show ?case by simp
next
  case (4 t kids k buf offset)
  from "4.prems" obtain buf1 offset1 where
    s1: "serialize_dirtree t buf offset = Some (buf1, offset1)" and
    s2: "serialize_subdirs kids k buf1 offset1 = Some (buf', off')"
    by (auto split: option.splits)
  from "4.prems" have wf: "wf_dirtree t" "list_all wf_dirtree kids" "k = length kids"
    by simp_all
  from "4.IH"(1) [OF s1 wf(1)]
  have a: "offset1 = offset + length (tree_bytes t)" "offset1 \<le> length buf"
     "offset1 \<le> INT_MAX" "buf1 = splice buf offset (tree_bytes t)" by simp_all
  have len1: "length buf1 = length buf" using a by (simp add: length_splice)
  from "4.IH"(2) [OF s1 refl s2 wf(2) wf(3)] a len1
  have b: "off' = offset1 + length (concat (map tree_bytes kids))" "off' \<le> length buf"
      "off' \<le> INT_MAX" "buf' = splice buf1 offset1 (concat (map tree_bytes kids))"
    by simp_all
  have "buf' = splice buf offset (tree_bytes t @ concat (map tree_bytes kids))"
    using a b splice_splice [of offset "tree_bytes t" "concat (map tree_bytes kids)" buf]
    by simp
  then show ?case using a b by simp
qed

text \<open>What deserialization reads back from the bytes of a tree, wherever they stand.\<close>

lemma deserialize_subdirs_image:
  assumes ih: "\<And>t pre post. t \<in> set kids \<Longrightarrow> wf_dirtree t \<Longrightarrow>
                 length pre + length (tree_bytes t) \<le> INT_MAX \<Longrightarrow>
                 deserialize_dirtree (pre @ tree_bytes t @ post) (length pre)
                   = Some (t, length pre + length (tree_bytes t))"
    and wf: "list_all wf_dirtree kids"
    and bound: "length pre + length (concat (map tree_bytes kids)) \<le> INT_MAX"
  shows "deserialize_subdirs (pre @ concat (map tree_bytes kids) @ post) (length kids) (length pre)
           = Some (kids, length pre + length (concat (map tree_bytes kids)))"
  using ih wf bound
proof (induction kids arbitrary: pre)
  case Nil
  then show ?case by simp
next
  case (Cons t kids)
  let ?rest = "concat (map tree_bytes kids)"
  have a: "deserialize_dirtree (pre @ tree_bytes t @ (?rest @ post)) (length pre)
             = Some (t, length pre + length (tree_bytes t))"
    using Cons.prems by (intro Cons.prems(1)) simp_all
  have b: "deserialize_subdirs ((pre @ tree_bytes t) @ ?rest @ post) (length kids)
             (length (pre @ tree_bytes t))
           = Some (kids, length (pre @ tree_bytes t) + length ?rest)"
    using Cons.prems by (intro Cons.IH) simp_all
  show ?case using a b by (simp add: add.assoc)
qed

lemma deserialize_image:
  "wf_dirtree t \<Longrightarrow> length pre + length (tree_bytes t) \<le> INT_MAX \<Longrightarrow>
     deserialize_dirtree (pre @ tree_bytes t @ post) (length pre)
       = Some (t, length pre + length (tree_bytes t))"
proof (induction t arbitrary: pre post)
  case (Node nm n kids)
  let ?kb = "concat (map tree_bytes kids)"
  let ?buf = "pre @ tree_bytes (Node nm n kids) @ post"
  let ?pre' = "pre @ nm @ [0] @ le32 n"
  from Node.prems have wf: "0 \<notin> set nm" "nat (sint n) = length kids" "list_all wf_dirtree kids"
    by simp_all
  have buf: "?buf = ?pre' @ ?kb @ post"
    using wf by (simp add: c_string_id)
  have nm: "c_string (drop (length pre) ?buf) = nm"
    using wf by (simp add: c_string_id c_string_prefix)
  have cnt: "le32_dec (take 4 (drop (length pre + length nm + 1) ?buf)) = n"
    using wf by (simp add: c_string_id le32_length le32_roundtrip)
  have len: "length pre + length nm + 1 + 4 = length ?pre'"
    by (simp add: le32_length)
  have bound: "length ?pre' + length ?kb \<le> INT_MAX"
    using Node.prems wf by (simp add: c_string_id le32_length)
  have kids: "deserialize_subdirs (?pre' @ ?kb @ post) (length kids) (length ?pre')
           = Some (kids, length ?pre' + length ?kb)"
    using wf(3) bound by (intro deserialize_subdirs_image Node.IH) simp_all
  have fits: "\<not> (length ?buf < length pre + length nm + 1 + 4
                 \<or> INT_MAX < length pre + length nm + 1 + 4)"
    using bound wf by (simp add: c_string_id le32_length)
  show ?case
    apply (subst deserialize_dirtree.simps)
    apply (simp only: nm Let_def cnt fits if_False wf(2))
    apply (simp only: len buf kids)
    apply (simp add: le32_length c_string_id wf)
    done
qed

text \<open>
  Claim C3. Let \<open>T\<close> be a tree whose names are non-empty and free of NUL and whose
  child counts are non-negative and equal to the number of children. If serializing \<open>T\<close>
  into a buffer from offset 0 produces \<open>n\<close> bytes, then deserializing these \<open>n\<close> bytes
  from offset 0 yields \<open>T\<close> and stops at offset \<open>n\<close>, whatever bytes \<open>post\<close> follow them
  (the client appends one NUL; the rest of the server's buffer is another case).
\<close>

theorem dirtree_roundtrip:
  assumes "wf_dirtree T" and "serialize_dirtree T buf 0 = Some (buf', n)"
  shows "deserialize_dirtree (take n buf' @ post) 0 = Some (T, n)"
proof -
  from serialize_image(1) [OF assms(2) assms(1)]
  have a: "n = length (tree_bytes T)" "n \<le> length buf" "n \<le> INT_MAX"
    "buf' = splice buf 0 (tree_bytes T)" by simp_all
  then have "take n buf' = tree_bytes T" by (simp add: splice_def)
  moreover have "deserialize_dirtree ([] @ tree_bytes T @ post) (length ([] :: byte list))
     = Some (T, length ([] :: byte list) + length (tree_bytes T))"
    using assms(1) a by (intro deserialize_image) simp_all
  ultimately show ?thesis using a by simp
qed

theorem dirtree_roundtrip_witness:
  "wf_dirtree (Node [97] 2 [Node [98] 0 [], Node [99] 0 []])
   \<and> serialize_dirtree (Node [97] 2 [Node [98] 0 [], Node [99] 0 []])
        [7, 7, 7, 7, 7, 7, 7, 7, 7, 7, 7, 7, 7, 7, 7, 7, 7, 7, 7, 7] 0
       = Some ([97, 0, 2, 0, 0, 0, 98, 0, 0, 0, 0, 0, 99, 0, 0, 0, 0, 0, 7, 7], 18)
   \<and> deserialize_dirtree ([97, 0, 2, 0, 0, 0, 98, 0, 0, 0, 0, 0, 99, 0, 0, 0, 0, 0] @ [0]) 0
       = Some (Node [97] 2 [Node [98] 0 [], Node [99] 0 []], 18)"
proof -
  have w: "wf_dirtree (Node [97] 2 [Node [98] 0 [], Node [99] 0 []])"
    by (simp add: word_sle_eq)
  have s: "serialize_dirtree (Node [97] 2 [Node [98] 0 [], Node [99] 0 []])
        [7, 7, 7, 7, 7, 7, 7, 7, 7, 7, 7, 7, 7, 7, 7, 7, 7, 7, 7, 7] 0
       = Some ([97, 0, 2, 0, 0, 0, 98, 0, 0, 0, 0, 0, 99, 0, 0, 0, 0, 0, 7, 7], 18)"
    by (simp add: store_def INT_MAX_def le32_def c_string_def serialize_subdirs_numeral)
  have t: "take 18 [97, 0, 2, 0, 0, 0, 98, 0, 0, 0, 0, 0, 99, 0, 0, 0, 0, 0, 7, 7 :: byte]
     = [97, 0, 2, 0, 0, 0, 98, 0, 0, 0, 0, 0, 99, 0, 0, 0, 0, 0]"
    by simp
  show ?thesis using w s dirtree_roundtrip [OF w s, of "[0]"] unfolding t by blast
qed



section \<open>Runs of the chunking loops\<close>

lemma writeHelper_SomeD:
  assumes "writeHelper E st fd off n = Some (bw, st1)"
  obtains b e where "bw = (if e = 0 then scast b else - 1)"
    and "rcvd st1 = rcvd st @ [Reply b e]"
    and "sent st1 = sent st @ [Write_req fd (ucast n) off]"
    and "errno st1 = e"
  using assms
  by (auto simp: writeHelper_def receiveResponse_def sendRequest_def
           split: option.splits prod.splits reply.splits)

lemma readHelper_SomeD:
  assumes "readHelper E st fd n = Some (br, st1)"
  obtains b e where "br = (if e = 0 then scast b else - 1)"
    and "rcvd st1 = rcvd st @ [Reply b e]"
    and "sent st1 = sent st @ [Read_req fd (ucast n)]"
    and "errno st1 = e"
  using assms
  by (auto simp: readHelper_def receiveResponse_def sendRequest_def
           split: option.splits prod.splits reply.splits)

lemma helper_abort_iff:
  "(if e = 0 then (scast (b :: cint) :: ssize_t) else - 1) = - 1 \<longleftrightarrow> aborting (Reply b e)"
  by (simp add: aborting_def scast_int_minus1)

lemma accumulated_Cons: "accumulated (Reply b e # rs) = b + accumulated rs"
  by (simp add: accumulated_def)


text \<open>
  Every run of a loop that returns has received a list of replies, one for each request
  it sent, and its outcome is the one described above. The proofs follow the loops'
  own recursion.
\<close>

lemma write_loop_run:
  assumes "write_loop E fd st count tot = Some y"
  shows "\<exists>rs. rcvd (snd y) = rcvd st @ rs
             \<and> length (sent (snd y)) = length (sent st) + length rs
             \<and> write_outcome tot (errno st) rs (fst y) (errno (snd y))"
proof (induction rule: write_loop.raw_induct [OF _ assms])
  case (1 loop E fd st count tot y)
  show ?case
  proof (cases "count = 0")
    case True
    with "1.hyps" have "y = (if tot = 0 then - 1 else scast tot, st)" by simp
    then show ?thesis
      by (intro exI [of _ "[]"]) (simp add: write_outcome_def accumulated_def)
  next
    case False
    with "1.hyps" obtain bw st1 where
      h: "writeHelper E st fd tot (write_chunk count) = Some (bw, st1)" and
      rest: "(if bw = - 1 then Some (- 1, st1)
              else loop E fd st1 (count - bw) (tot + ucast bw)) = Some y"
      by (auto split: option.splits)
    from h obtain b e where
      bw: "bw = (if e = 0 then scast b else - 1)" and
      logs: "rcvd st1 = rcvd st @ [Reply b e]"
            "sent st1 = sent st @ [Write_req fd (ucast (write_chunk count)) tot]"
            "errno st1 = e"
      by (rule writeHelper_SomeD)
    show ?thesis
    proof (cases "bw = - 1")
      case True
      with rest have y: "y = (- 1, st1)" by simp
      from True bw have "aborting (Reply b e)" by (simp add: helper_abort_iff)
      then show ?thesis using y logs
        by (intro exI [of _ "[Reply b e]"]) (simp add: write_outcome_def)
    next
      case False
      with bw have na: "\<not> aborting (Reply b e)" by (simp add: helper_abort_iff)
      then have e0: "e = 0" by (simp add: aborting_def)
      with bw have ub: "ucast bw = b" by (simp add: ucast_scast_int)
      from False rest have "loop E fd st1 (count - bw) (tot + ucast bw) = Some y" by simp
      from "1.IH" [OF this] obtain rs where
        rs: "rcvd (snd y) = rcvd st1 @ rs"
            "length (sent (snd y)) = length (sent st1) + length rs"
            "write_outcome (tot + ucast bw) (errno st1) rs (fst y) (errno (snd y))"
        by blast
      have "write_outcome tot (errno st) (Reply b e # rs) (fst y) (errno (snd y))"
        using rs(3) na e0 logs(3) ub
        by (cases "rs = []") (auto simp: write_outcome_def accumulated_Cons add.assoc accumulated_def)
      then show ?thesis using rs logs
        by (intro exI [of _ "Reply b e # rs"]) simp
    qed
  qed
qed

lemma read_loop_run:
  assumes "read_loop E fd st count tot = Some y"
  shows "\<exists>rs. rcvd (snd y) = rcvd st @ rs
             \<and> length (sent (snd y)) = length (sent st) + length rs
             \<and> read_outcome tot (errno st) rs (fst y) (errno (snd y))"
proof (induction rule: read_loop.raw_induct [OF _ assms])
  case (1 loop E fd st count tot y)
  show ?case
  proof (cases "count = 0")
    case True
    with "1.hyps" have "y = (scast tot, st)" by simp
    then show ?thesis
      by (intro exI [of _ "[]"]) (simp add: read_outcome_def accumulated_def)
  next
    case False
    with "1.hyps" obtain br st1 where
      h: "readHelper E st fd (read_chunk count) = Some (br, st1)" and
      rest: "(if br = - 1 then Some (- 1, st1)
              else if br = 0 then Some (scast tot, st1)
              else loop E fd st1 (count - br) (tot + ucast br)) = Some y"
      by (auto split: option.splits)
    from h obtain b e where
      br: "br = (if e = 0 then scast b else - 1)" and
      logs: "rcvd st1 = rcvd st @ [Reply b e]"
            "sent st1 = sent st @ [Read_req fd (ucast (read_chunk count))]"
            "errno st1 = e"
      by (rule readHelper_SomeD)
    show ?thesis
    proof (cases "br = - 1")
      case True
      with rest have y: "y = (- 1, st1)" by simp
      from True br have "aborting (Reply b e)" by (simp add: helper_abort_iff)
      then show ?thesis using y logs
        by (intro exI [of _ "[Reply b e]"]) (simp add: read_outcome_def)
    next
      case False
      with br have na: "\<not> aborting (Reply b e)" by (simp add: helper_abort_iff)
      then have e0: "e = 0" by (simp add: aborting_def)
      with br have ub: "ucast br = b" by (simp add: ucast_scast_int)
      show ?thesis
      proof (cases "br = 0")
        case True
        with False rest have y: "y = (scast tot, st1)" by simp
        from True br e0 have "b = 0" by (simp add: scast_int_zero)
        then show ?thesis using y logs na e0
          by (intro exI [of _ "[Reply b e]"]) (simp add: read_outcome_def accumulated_def)
      next
        case nz: False
        with False rest have "loop E fd st1 (count - br) (tot + ucast br) = Some y" by simp
        from "1.IH" [OF this] obtain rs where
          rs: "rcvd (snd y) = rcvd st1 @ rs"
              "length (sent (snd y)) = length (sent st1) + length rs"
              "read_outcome (tot + ucast br) (errno st1) rs (fst y) (errno (snd y))"
          by blast
        have "read_outcome tot (errno st) (Reply b e # rs) (fst y) (errno (snd y))"
          using rs(3) na e0 logs(3) ub
          by (cases "rs = []")
             (auto simp: read_outcome_def accumulated_Cons add.assoc accumulated_def)
        then show ?thesis using rs logs
          by (intro exI [of _ "Reply b e # rs"]) simp
      qed
    qed
  qed
qed





text \<open>One iteration of each loop, by what the helper returned.\<close>

lemma write_loop_done: "write_loop E fd st 0 tot = Some (if tot = 0 then - 1 else scast tot, st)"
  by (subst write_loop.simps) simp

lemma write_loop_abort:
  "count \<noteq> 0 \<Longrightarrow> writeHelper E st fd tot (write_chunk count) = Some (- 1, st1) \<Longrightarrow>
     write_loop E fd st count tot = Some (- 1, st1)"
  by (subst write_loop.simps) simp

lemma write_loop_step:
  "count \<noteq> 0 \<Longrightarrow> writeHelper E st fd tot (write_chunk count) = Some (bw, st1) \<Longrightarrow> bw \<noteq> - 1 \<Longrightarrow>
     write_loop E fd st count tot = write_loop E fd st1 (count - bw) (tot + ucast bw)"
  by (subst write_loop.simps) simp

lemma read_loop_done: "read_loop E fd st 0 tot = Some (scast tot, st)"
  by (subst read_loop.simps) simp

lemma read_loop_abort:
  "count \<noteq> 0 \<Longrightarrow> readHelper E st fd (read_chunk count) = Some (- 1, st1) \<Longrightarrow>
     read_loop E fd st count tot = Some (- 1, st1)"
  by (subst read_loop.simps) simp

lemma read_loop_eof:
  "count \<noteq> 0 \<Longrightarrow> readHelper E st fd (read_chunk count) = Some (0, st1) \<Longrightarrow>
     read_loop E fd st count tot = Some (scast tot, st1)"
  by (subst read_loop.simps) simp

lemma read_loop_step:
  "count \<noteq> 0 \<Longrightarrow> readHelper E st fd (read_chunk count) = Some (br, st1) \<Longrightarrow> br \<noteq> - 1 \<Longrightarrow>
     br \<noteq> 0 \<Longrightarrow>
     read_loop E fd st count tot = read_loop E fd st1 (count - br) (tot + ucast br)"
  by (subst read_loop.simps) simp


text \<open>Three runs against a peer that plays back a list of replies.\<close>

lemmas scripted_simps =
  scripted_def local_env_def start_def sendRequest_def receiveResponse_def
  writeHelper_def readHelper_def write_chunk_def read_chunk_def MAX_MSG_LEN_def

lemma run_write_abort:
  "write_shim scripted (start [Reply 4084 0, Reply (- 1) 5, Reply 7 0]) 5003 5000
     = Some (- 1, \<lparr>errno = 5, sent = [Write_req 3 4084 0, Write_req 3 916 4084],
                    rcvd = [Reply 4084 0, Reply (- 1) 5], peer = [Reply 7 0], kern = ()\<rparr>)"
proof -
  have ge: "\<not> (5003 :: cint) <s FD_OFFSET"
    by (simp add: FD_OFFSET_def word_sless_alt)
  have h1: "writeHelper scripted (start [Reply 4084 0, Reply (- 1) 5, Reply 7 0]) 3 0 (write_chunk 5000)
      = Some (4084, \<lparr>errno = 0, sent = [Write_req 3 4084 0], rcvd = [Reply 4084 0],
                      peer = [Reply (- 1) 5, Reply 7 0], kern = ()\<rparr>)"
    by (simp add: scripted_simps)
  have h2: "writeHelper scripted \<lparr>errno = 0, sent = [Write_req 3 4084 0], rcvd = [Reply 4084 0],
                      peer = [Reply (- 1) 5, Reply 7 0], kern = ()\<rparr> 3 4084 (write_chunk 916)
      = Some (- 1, \<lparr>errno = 5, sent = [Write_req 3 4084 0, Write_req 3 916 4084],
                    rcvd = [Reply 4084 0, Reply (- 1) 5], peer = [Reply 7 0], kern = ()\<rparr>)"
    by (simp add: scripted_simps)
  show ?thesis
    using ge write_loop_step [OF _ h1] write_loop_abort [OF _ h2]
    by (simp add: write_shim_def FD_OFFSET_def)
qed

lemma run_write_full:
  "write_shim scripted (start [Reply 4084 0, Reply 916 0]) 5003 5000
     = Some (5000, \<lparr>errno = 0, sent = [Write_req 3 4084 0, Write_req 3 916 4084],
                      rcvd = [Reply 4084 0, Reply 916 0], peer = [], kern = ()\<rparr>)"
proof -
  have ge: "\<not> (5003 :: cint) <s FD_OFFSET"
    by (simp add: FD_OFFSET_def word_sless_alt)
  have h1: "writeHelper scripted (start [Reply 4084 0, Reply 916 0]) 3 0 (write_chunk 5000)
      = Some (4084, \<lparr>errno = 0, sent = [Write_req 3 4084 0], rcvd = [Reply 4084 0],
                      peer = [Reply 916 0], kern = ()\<rparr>)"
    by (simp add: scripted_simps)
  have h2: "writeHelper scripted \<lparr>errno = 0, sent = [Write_req 3 4084 0], rcvd = [Reply 4084 0],
                      peer = [Reply 916 0], kern = ()\<rparr> 3 4084 (write_chunk 916)
      = Some (916, \<lparr>errno = 0, sent = [Write_req 3 4084 0, Write_req 3 916 4084],
                    rcvd = [Reply 4084 0, Reply 916 0], peer = [], kern = ()\<rparr>)"
    by (simp add: scripted_simps)
  show ?thesis
    using ge write_loop_step [OF _ h1] write_loop_step [OF _ h2]
    by (simp add: write_shim_def FD_OFFSET_def write_loop_done)
qed

lemma run_read_abort:
  "read scripted (start [Reply (- 1) 5]) 5003 10
     = Some (- 1, \<lparr>errno = 5, sent = [Read_req 3 10], rcvd = [Reply (- 1) 5],
                    peer = [], kern = ()\<rparr>)"
proof -
  have ge: "\<not> (5003 :: cint) <s FD_OFFSET"
    by (simp add: FD_OFFSET_def word_sless_alt)
  have h1: "readHelper scripted (start [Reply (- 1) 5]) 3 (read_chunk 10)
      = Some (- 1, \<lparr>errno = 5, sent = [Read_req 3 10], rcvd = [Reply (- 1) 5],
                    peer = [], kern = ()\<rparr>)"
    by (simp add: scripted_simps)
  show ?thesis
    using ge read_loop_abort [OF _ h1] by (simp add: read_def FD_OFFSET_def)
qed


section \<open>Chunked transfer stops at the first error\<close>




section \<open>The error number and the failure sentinel\<close>

text \<open>
  Claim C4, as amended. For read and write on a remote descriptor: when the call has
  written an error number to \<^verbatim>\<open>errno\<close> (it received at least one reply) and that number is
  not 0, the call returns \<open>-1\<close>. open, close, lseek, stat and unlink return the value
  field of the reply as it is (open adds 5000 to a value other than \<open>-1\<close>) and store the
  reply's error number, whatever the two are; so does getdirentries for a reply whose
  error number is not 0. For these six a non-zero error number has no effect on the value
  returned.
\<close>

theorem errno_sentinel:
  "(\<not> fd <s FD_OFFSET
      \<and> (read E st fd count = Some (r, st') \<or> write_shim E st fd count = Some (r, st'))
      \<and> rcvd st' \<noteq> rcvd st \<and> errno st' \<noteq> 0
      \<longrightarrow> r = - 1)
   \<and> (receiveResponse E (sendRequest E st
          (Open_req pathname flags (if flags AND O_CREAT \<noteq> 0 then mode_arg else 0)))
        = Some (Reply v e, st1)
      \<longrightarrow> open_shim E st pathname flags mode_arg
            = Some (if v \<noteq> - 1 then v + FD_OFFSET else v, st1\<lparr>errno := e\<rparr>))
   \<and> (\<not> fd <s FD_OFFSET
        \<and> receiveResponse E (sendRequest E st (Close_req (fd - FD_OFFSET))) = Some (Reply v e, st1)
      \<longrightarrow> close E st fd = Some (v, st1\<lparr>errno := e\<rparr>))
   \<and> (\<not> fd <s FD_OFFSET
        \<and> receiveResponse E (sendRequest E st (Lseek_req (fd - FD_OFFSET) offset whence))
            = Some (Lseek_reply new_offset e, st1)
      \<longrightarrow> lseek E st fd offset whence = Some (new_offset, st1\<lparr>errno := e\<rparr>))
   \<and> (receiveResponse E (sendRequest E st (Stat_req pathname)) = Some (Reply v e, st1)
      \<longrightarrow> stat E st pathname = Some (v, st1\<lparr>errno := e\<rparr>))
   \<and> (receiveResponse E (sendRequest E st (Unlink_req pathname)) = Some (Reply v e, st1)
      \<longrightarrow> unlink E st pathname = Some (v, st1\<lparr>errno := e\<rparr>))
   \<and> (\<not> fd <s FD_OFFSET \<and> e \<noteq> 0
        \<and> receiveResponse E
             (sendRequest E st (Getdirentries_req (fd - FD_OFFSET) (ucast count) basep))
            = Some (Reply v e, st1)
      \<longrightarrow> getdirentries E st fd count basep = Some (scast v, st1\<lparr>errno := e\<rparr>))"
proof (intro conjI impI)
  assume a: "\<not> fd <s FD_OFFSET
      \<and> (read E st fd count = Some (r, st') \<or> write_shim E st fd count = Some (r, st'))
      \<and> rcvd st' \<noteq> rcvd st \<and> errno st' \<noteq> 0"
  then consider "read_loop E (fd - FD_OFFSET) st count 0 = Some (r, st')"
    | "write_loop E (fd - FD_OFFSET) st count 0 = Some (r, st')"
    by (auto simp: write_shim_def read_def)
  then show "r = - 1"
  proof cases
    case 1
    from read_loop_run [OF 1] a show ?thesis
      by (auto simp: read_outcome_def split: if_splits)
  next
    case 2
    from write_loop_run [OF 2] a show ?thesis
      by (auto simp: write_outcome_def split: if_splits)
  qed
qed (simp_all add: open_shim_def close_def lseek_def stat_def unlink_def getdirentries_def)


text \<open>
  The claim as stated fails for open: the reply (3, 2) makes open return 5003 with 2 in
  \<^verbatim>\<open>errno\<close>.
\<close>

theorem errno_sentinel_counterexample:
  "open_shim scripted (start [Reply 3 2]) [47, 120] 0 0
     = Some (5003, \<lparr>errno = 2, sent = [Open_req [47, 120] 0 0], rcvd = [Reply 3 2],
                     peer = [], kern = ()\<rparr>)
   \<and> (2 :: cint) \<noteq> 0 \<and> (5003 :: cint) \<noteq> - 1"
  by (simp add: open_shim_def scripted_simps O_CREAT_def FD_OFFSET_def)

theorem errno_sentinel_witness:
  "read scripted (start [Reply (- 1) 5]) 5003 10
     = Some (- 1, \<lparr>errno = 5, sent = [Read_req 3 10], rcvd = [Reply (- 1) 5],
                    peer = [], kern = ()\<rparr>)
   \<and> open_shim scripted (start [Reply (- 1) 2]) [47, 120] 0 0
     = Some (- 1, \<lparr>errno = 2, sent = [Open_req [47, 120] 0 0], rcvd = [Reply (- 1) 2],
                    peer = [], kern = ()\<rparr>)
   \<and> close scripted (start [Reply 0 9]) 5003
     = Some (0, \<lparr>errno = 9, sent = [Close_req 3], rcvd = [Reply 0 9], peer = [], kern = ()\<rparr>)
   \<and> lseek scripted (start [Lseek_reply 12 9]) 5003 12 0
     = Some (12, \<lparr>errno = 9, sent = [Lseek_req 3 12 0], rcvd = [Lseek_reply 12 9],
                    peer = [], kern = ()\<rparr>)
   \<and> stat scripted (start [Reply 0 2]) [47, 120]
     = Some (0, \<lparr>errno = 2, sent = [Stat_req [47, 120]], rcvd = [Reply 0 2],
                   peer = [], kern = ()\<rparr>)
   \<and> unlink scripted (start [Reply (- 1) 2]) [47, 120]
     = Some (- 1, \<lparr>errno = 2, sent = [Unlink_req [47, 120]], rcvd = [Reply (- 1) 2],
                    peer = [], kern = ()\<rparr>)
   \<and> getdirentries scripted (start [Reply 24 2]) 5003 100 0
     = Some (24, \<lparr>errno = 2, sent = [Getdirentries_req 3 100 0], rcvd = [Reply 24 2],
                    peer = [], kern = ()\<rparr>)"
proof -
  have ge: "\<not> (5003 :: cint) <s FD_OFFSET"
    by (simp add: FD_OFFSET_def word_sless_alt)
  note rw = errno_sentinel [where fd = 5003 and E = scripted and st = "start [Reply (- 1) 5]"
      and count = 10 and r = "- 1"
      and st' = "\<lparr>errno = 5, sent = [Read_req 3 10], rcvd = [Reply (- 1) 5],
                    peer = [], kern = ()\<rparr>"]
  note op = errno_sentinel [where E = scripted and st = "start [Reply (- 1) 2]"
      and pathname = "[47, 120]" and flags = 0 and mode_arg = 0 and v = "- 1" and e = 2
      and ?st1.0 = "\<lparr>errno = 0, sent = [Open_req [47, 120] 0 0], rcvd = [Reply (- 1) 2],
                    peer = [], kern = ()\<rparr>"]
  note cl = errno_sentinel [where fd = 5003 and E = scripted and st = "start [Reply 0 9]"
      and v = 0 and e = 9
      and ?st1.0 = "\<lparr>errno = 0, sent = [Close_req 3], rcvd = [Reply 0 9],
                    peer = [], kern = ()\<rparr>"]
  note ls = errno_sentinel [where fd = 5003 and E = scripted and st = "start [Lseek_reply 12 9]"
      and offset = 12 and whence = 0 and new_offset = 12 and e = 9
      and ?st1.0 = "\<lparr>errno = 0, sent = [Lseek_req 3 12 0], rcvd = [Lseek_reply 12 9],
                    peer = [], kern = ()\<rparr>"]
  note sa = errno_sentinel [where E = scripted and st = "start [Reply 0 2]"
      and pathname = "[47, 120]" and v = 0 and e = 2
      and ?st1.0 = "\<lparr>errno = 0, sent = [Stat_req [47, 120]], rcvd = [Reply 0 2],
                    peer = [], kern = ()\<rparr>"]
  note un = errno_sentinel [where E = scripted and st = "start [Reply (- 1) 2]"
      and pathname = "[47, 120]" and v = "- 1" and e = 2
      and ?st1.0 = "\<lparr>errno = 0, sent = [Unlink_req [47, 120]], rcvd = [Reply (- 1) 2],
                    peer = [], kern = ()\<rparr>"]
  note gd = errno_sentinel [where fd = 5003 and E = scripted and st = "start [Reply 24 2]"
      and count = 100 and basep = 0 and v = 24 and e = 2
      and ?st1.0 = "\<lparr>errno = 0, sent = [Getdirentries_req 3 100 0], rcvd = [Reply 24 2],
                    peer = [], kern = ()\<rparr>"]
  have a: "open_shim scripted (start [Reply (- 1) 2]) [47, 120] 0 0
     = Some (- 1, \<lparr>errno = 2, sent = [Open_req [47, 120] 0 0], rcvd = [Reply (- 1) 2],
                    peer = [], kern = ()\<rparr>)"
    using op by (simp add: scripted_simps)
  have b: "close scripted (start [Reply 0 9]) 5003
     = Some (0, \<lparr>errno = 9, sent = [Close_req 3], rcvd = [Reply 0 9], peer = [], kern = ()\<rparr>)"
    using cl ge by (simp add: scripted_simps FD_OFFSET_def)
  have c: "lseek scripted (start [Lseek_reply 12 9]) 5003 12 0
     = Some (12, \<lparr>errno = 9, sent = [Lseek_req 3 12 0], rcvd = [Lseek_reply 12 9],
                    peer = [], kern = ()\<rparr>)"
    using ls ge by (simp add: scripted_simps FD_OFFSET_def)
  have d: "stat scripted (start [Reply 0 2]) [47, 120]
     = Some (0, \<lparr>errno = 2, sent = [Stat_req [47, 120]], rcvd = [Reply 0 2],
                   peer = [], kern = ()\<rparr>)"
    using sa by (simp add: scripted_simps)
  have e: "unlink scripted (start [Reply (- 1) 2]) [47, 120]
     = Some (- 1, \<lparr>errno = 2, sent = [Unlink_req [47, 120]], rcvd = [Reply (- 1) 2],
                    peer = [], kern = ()\<rparr>)"
    using un by (simp add: scripted_simps)
  have f: "getdirentries scripted (start [Reply 24 2]) 5003 100 0
     = Some (24, \<lparr>errno = 2, sent = [Getdirentries_req 3 100 0], rcvd = [Reply 24 2],
                    peer = [], kern = ()\<rparr>)"
    using gd ge by (simp add: scripted_simps FD_OFFSET_def)
  show ?thesis
    using rw run_read_abort a b c d e f by simp
qed


section \<open>The sub-frames of a write\<close>

lemma full_success_exchange:
  assumes "full_success E" and "c \<noteq> 0" and "c \<le> 4084"
  shows "\<exists>st1. receiveResponse E (sendRequest E st (Write_req fd c off)) = Some (Reply c 0, st1)
           \<and> sent st1 = sent st @ [Write_req fd c off]"
proof -
  from assms obtain p' where
    "emit E (deliver E (peer st) (Write_req fd c off)) = Some (Reply c 0, p')"
    unfolding full_success_def by blast
  then show ?thesis
    by (simp add: receiveResponse_def sendRequest_def)
qed

lemma small_pos: "(c :: cint) \<noteq> 0 \<Longrightarrow> c \<le> 4084 \<Longrightarrow> 0 <s c"
proof -
  assume nz: "c \<noteq> 0" and le: "c \<le> 4084"
  from le have u: "uint c \<le> 4084" by (simp add: word_le_def)
  have "sint c = signed_take_bit (LENGTH(32) - Suc 0) (uint c)"
    by (simp add: sint_uint)
  also have "\<dots> = uint c"
  proof (rule signed_take_bit_int_eq_self)
    have p: "(2 :: int) ^ (LENGTH(32) - Suc 0) = 2147483648" by simp
    show "- (2 ^ (LENGTH(32) - Suc 0)) \<le> uint c"
      unfolding p using uint_ge_0 [of c] by linarith
    show "uint c < 2 ^ (LENGTH(32) - Suc 0)"
      unfolding p using u by linarith
  qed
  finally have "sint c = uint c" .
  moreover from nz have "0 < uint c"
    by (simp add: word_neq_0_conv word_less_def)
  ultimately show ?thesis by (simp add: word_sless_alt)
qed

lemma full_success_obedient: "full_success obedient"
  by (simp add: full_success_def obedient_def local_env_def)

lemma conforming_obedient: "conforming obedient"
  by (simp add: conforming_def obedient_def local_env_def small_pos)


text \<open>
  Claim C7. Against a peer that reports every sub-frame as written in full, a remote
  write of \<open>MAX_MSG_LEN - 12 = 4084\<close> bytes returns 4084 after one sub-frame, which
  carries bytes 0 to 4083 of the caller's buffer, and a remote write of
  \<open>MAX_MSG_LEN - 11 = 4085\<close> bytes returns 4085 after exactly two: 4084 bytes from
  displacement 0, then 1 byte from displacement 4084.
\<close>

theorem write_boundary:
  assumes "full_success E" and "\<not> fd <s FD_OFFSET"
  shows "MAX_MSG_LEN - 12 = 4084 \<and> MAX_MSG_LEN - 11 = 4085
       \<and> (\<exists>st'. write_shim E st fd 4084 = Some (4084, st')
             \<and> sent st' = sent st @ [Write_req (fd - FD_OFFSET) 4084 0])
       \<and> (\<exists>st'. write_shim E st fd 4085 = Some (4085, st')
             \<and> sent st' = sent st @ [Write_req (fd - FD_OFFSET) 4084 0,
                                      Write_req (fd - FD_OFFSET) 1 4084])"
proof -
  let ?fd = "fd - FD_OFFSET"
  have c1: "write_chunk 4084 = 4084" and c2: "write_chunk 4085 = 4084" and c3: "write_chunk 1 = 1"
    by (simp_all add: write_chunk_def MAX_MSG_LEN_def)
  from full_success_exchange [OF assms(1), of 4084 st ?fd 0] obtain st1 where
    x1: "receiveResponse E (sendRequest E st (Write_req ?fd 4084 0)) = Some (Reply 4084 0, st1)"
    and s1: "sent st1 = sent st @ [Write_req ?fd 4084 0]"
    by auto
  have h1: "writeHelper E st ?fd 0 4084 = Some (4084, st1\<lparr>errno := 0\<rparr>)"
    using x1 by (simp add: writeHelper_def)
  from full_success_exchange [OF assms(1), of 1 "st1\<lparr>errno := 0\<rparr>" ?fd 4084] obtain st2 where
    x2: "receiveResponse E (sendRequest E (st1\<lparr>errno := 0\<rparr>) (Write_req ?fd 1 4084))
           = Some (Reply 1 0, st2)"
    and s2: "sent st2 = sent (st1\<lparr>errno := 0\<rparr>) @ [Write_req ?fd 1 4084]"
    by auto
  have h2: "writeHelper E (st1\<lparr>errno := 0\<rparr>) ?fd 4084 1 = Some (1, st2\<lparr>errno := 0\<rparr>)"
    using x2 by (simp add: writeHelper_def)
  have a: "write_loop E ?fd st 4084 0 = Some (4084, st1\<lparr>errno := 0\<rparr>)"
    using write_loop_step [of 4084 E st ?fd 0 4084 "st1\<lparr>errno := 0\<rparr>"] h1 c1
    by (simp add: write_loop_done)
  have b: "write_loop E ?fd st 4085 0 = Some (4085, st2\<lparr>errno := 0\<rparr>)"
    using write_loop_step [of 4085 E st ?fd 0 4084 "st1\<lparr>errno := 0\<rparr>"] h1 c2
          write_loop_step [of 1 E "st1\<lparr>errno := 0\<rparr>" ?fd 4084 1 "st2\<lparr>errno := 0\<rparr>"] h2 c3
    by (simp add: write_loop_done)
  show ?thesis
    using assms(2) a b s1 s2 by (simp add: write_shim_def MAX_MSG_LEN_def)
qed

theorem write_boundary_witness:
  "full_success obedient \<and> \<not> (5003 :: cint) <s FD_OFFSET
   \<and> write_shim obedient (start 0) 5003 4084
       = Some (4084, \<lparr>errno = 0, sent = [Write_req 3 4084 0], rcvd = [Reply 4084 0],
                       peer = 4084, kern = ()\<rparr>)
   \<and> write_shim obedient (start 0) 5003 4085
       = Some (4085, \<lparr>errno = 0, sent = [Write_req 3 4084 0, Write_req 3 1 4084],
                       rcvd = [Reply 4084 0, Reply 1 0], peer = 1, kern = ()\<rparr>)"
proof -
  have ge: "\<not> (5003 :: cint) <s FD_OFFSET"
    by (simp add: FD_OFFSET_def word_sless_alt)
  have c1: "write_chunk 4084 = 4084" and c2: "write_chunk 4085 = 4084" and c3: "write_chunk 1 = 1"
    by (simp_all add: write_chunk_def MAX_MSG_LEN_def)
  have h1: "writeHelper obedient (start 0) 3 0 4084
      = Some (4084, \<lparr>errno = 0, sent = [Write_req 3 4084 0], rcvd = [Reply 4084 0],
                      peer = 4084, kern = ()\<rparr>)"
    by (simp add: obedient_def local_env_def start_def sendRequest_def receiveResponse_def
          writeHelper_def)
  have h2: "writeHelper obedient \<lparr>errno = 0, sent = [Write_req 3 4084 0], rcvd = [Reply 4084 0],
                      peer = 4084, kern = ()\<rparr> 3 4084 1
      = Some (1, \<lparr>errno = 0, sent = [Write_req 3 4084 0, Write_req 3 1 4084],
                       rcvd = [Reply 4084 0, Reply 1 0], peer = 1, kern = ()\<rparr>)"
    by (simp add: obedient_def local_env_def sendRequest_def receiveResponse_def writeHelper_def)
  have a: "write_loop obedient 3 (start 0) 4084 0
      = Some (4084, \<lparr>errno = 0, sent = [Write_req 3 4084 0], rcvd = [Reply 4084 0],
                      peer = 4084, kern = ()\<rparr>)"
    using write_loop_step [of 4084 obedient "start 0" 3 0] h1 c1 by (simp add: write_loop_done)
  have b: "write_loop obedient 3 (start 0) 4085 0
      = Some (4085, \<lparr>errno = 0, sent = [Write_req 3 4084 0, Write_req 3 1 4084],
                       rcvd = [Reply 4084 0, Reply 1 0], peer = 1, kern = ()\<rparr>)"
    using write_loop_step [of 4085 obedient "start 0" 3 0] h1 c2
          write_loop_step [of 1 obedient "\<lparr>errno = 0, sent = [Write_req 3 4084 0],
             rcvd = [Reply 4084 0], peer = 4084, kern = ()\<rparr>" 3 4084] h2 c3
    by (simp add: write_loop_done)
  show ?thesis
    using write_boundary [OF full_success_obedient ge, of "start 0"] ge full_success_obedient a b
    by (simp add: write_shim_def FD_OFFSET_def)
qed


section \<open>The value a remote write returns\<close>

text \<open>
  Claim C8, as amended. A remote write with count 0 sends nothing and returns \<open>-1\<close>. A
  remote write that returns after replies none of which made the helper fail returns the
  accumulated bytes-written count (the sum of their bytes values in \<^verbatim>\<open>int\<close> arithmetic),
  except that it returns \<open>-1\<close> when that count is 0. A write that received a reply that
  made the helper fail returns \<open>-1\<close>, whatever had been accumulated.
\<close>

theorem write_returns_accumulated:
  "(\<not> fd <s FD_OFFSET \<longrightarrow> write_shim E st fd 0 = Some (- 1, st))
   \<and> (\<not> fd <s FD_OFFSET \<and> write_shim E st fd count = Some (r, st')
      \<longrightarrow> (\<exists>rs. rcvd st' = rcvd st @ rs
             \<and> length (sent st') = length (sent st) + length rs
             \<and> (if list_ex aborting rs then r = - 1
                 else r = (if accumulated rs = 0 then - 1 else scast (accumulated rs)))))"
proof (intro conjI impI)
  assume "\<not> fd <s FD_OFFSET"
  then show "write_shim E st fd 0 = Some (- 1, st)"
    by (simp add: write_shim_def write_loop_done)
next
  assume a: "\<not> fd <s FD_OFFSET \<and> write_shim E st fd count = Some (r, st')"
  then have "write_loop E (fd - FD_OFFSET) st count 0 = Some (r, st')"
    by (auto simp: write_shim_def)
  from write_loop_run [OF this] obtain rs where
    rs: "rcvd st' = rcvd st @ rs" "length (sent st') = length (sent st) + length rs"
        "write_outcome 0 (errno st) rs r (errno st')"
    by auto
  have "if list_ex aborting rs then r = - 1
        else r = (if accumulated rs = 0 then - 1 else scast (accumulated rs))"
  proof (cases "rs \<noteq> [] \<and> aborting (last rs)")
    case True
    then have "list_ex aborting rs" by (auto simp: list_ex_iff)
    with True rs(3) show ?thesis by (simp add: write_outcome_def)
  next
    case False
    with rs(3) show ?thesis by (auto simp: write_outcome_def)
  qed
  with rs show "\<exists>rs. rcvd st' = rcvd st @ rs
             \<and> length (sent st') = length (sent st) + length rs
             \<and> (if list_ex aborting rs then r = - 1
                 else r = (if accumulated rs = 0 then - 1 else scast (accumulated rs)))"
    by (intro exI [of _ rs]) simp
qed


text \<open>
  The claim as stated fails when a later sub-frame fails: 4084 bytes are accumulated,
  the second reply carries an error, and the call returns \<open>-1\<close>.
\<close>

theorem write_returns_accumulated_counterexample:
  "write_shim scripted (start [Reply 4084 0, Reply (- 1) 5, Reply 7 0]) 5003 5000
     = Some (- 1, \<lparr>errno = 5, sent = [Write_req 3 4084 0, Write_req 3 916 4084],
                    rcvd = [Reply 4084 0, Reply (- 1) 5], peer = [Reply 7 0], kern = ()\<rparr>)
   \<and> accumulated [Reply 4084 0] = 4084
   \<and> accumulated [Reply 4084 0, Reply (- 1) 5] = 4083
   \<and> (- 1 :: ssize_t) \<noteq> scast (4084 :: cint) \<and> (- 1 :: ssize_t) \<noteq> scast (4083 :: cint)"
  using run_write_abort by (simp add: accumulated_def)

theorem write_returns_accumulated_witness:
  "\<not> (5003 :: cint) <s FD_OFFSET
   \<and> write_shim scripted (start []) 5003 0 = Some (- 1, start [])
   \<and> write_shim scripted (start [Reply 4084 0, Reply 916 0]) 5003 5000
     = Some (5000, \<lparr>errno = 0, sent = [Write_req 3 4084 0, Write_req 3 916 4084],
                      rcvd = [Reply 4084 0, Reply 916 0], peer = [], kern = ()\<rparr>)
   \<and> \<not> list_ex aborting [Reply 4084 0, Reply 916 0]
   \<and> accumulated [Reply 4084 0, Reply 916 0] = 5000"
proof -
  have ge: "\<not> (5003 :: cint) <s FD_OFFSET"
    by (simp add: FD_OFFSET_def word_sless_alt)
  note t = write_returns_accumulated [where fd = 5003 and E = scripted and st = "start []"
      and count = 5000 and r = 5000
      and st' = "\<lparr>errno = 0, sent = [Write_req 3 4084 0, Write_req 3 916 4084],
                      rcvd = [Reply 4084 0, Reply 916 0], peer = [], kern = ()\<rparr>"]
  show ?thesis
    using ge t run_write_full by (simp add: accumulated_def aborting_def)
qed


section \<open>Termination of the write loop\<close>

lemma write_chunk_bounds:
  "write_chunk count \<le> 4084" "write_chunk count \<le> count"
  "count \<noteq> 0 \<Longrightarrow> write_chunk count \<noteq> 0"
  by (auto simp: write_chunk_def MAX_MSG_LEN_def Let_def)

lemma write_chunk_field:
  assumes "count \<noteq> 0"
  shows "(ucast (write_chunk count) :: cint) \<noteq> 0" "(ucast (write_chunk count) :: cint) \<le> 4084"
    "unat (ucast (write_chunk count) :: cint) = unat (write_chunk count)"
proof -
  have le: "write_chunk count \<le> 4096"
    using write_chunk_bounds(1) [of count] by (simp add: word_le_nat_alt)
  show u: "unat (ucast (write_chunk count) :: cint) = unat (write_chunk count)"
    by (rule unat_ucast_small [OF le])
  from write_chunk_bounds(3) [OF assms] have "unat (write_chunk count) \<noteq> 0"
    by (simp add: unat_eq_0)
  with u show "(ucast (write_chunk count) :: cint) \<noteq> 0"
    by (metis unat_eq_0)
  from write_chunk_bounds(1) [of count] u show "(ucast (write_chunk count) :: cint) \<le> 4084"
    by (simp add: word_le_nat_alt)
qed

lemma conforming_helper:
  assumes "conforming E" and "count \<noteq> 0"
  shows "\<exists>bw st1. writeHelper E st fd tot (write_chunk count) = Some (bw, st1)
           \<and> (bw = - 1 \<or> (0 < unat bw \<and> unat bw \<le> unat count))"
proof -
  let ?c = "ucast (write_chunk count) :: cint"
  from assms(1) write_chunk_field(1,2) [OF assms(2)]
  obtain b e p' where
    em: "emit E (deliver E (peer st) (Write_req fd ?c tot)) = Some (Reply b e, p')" and
    ok: "e \<noteq> 0 \<or> (0 <s b \<and> b \<le> ?c)"
    unfolding conforming_def by blast
  from em obtain st1 where
    h: "writeHelper E st fd tot (write_chunk count) = Some (if e = 0 then scast b else - 1, st1)"
    by (simp add: writeHelper_def receiveResponse_def sendRequest_def)
  show ?thesis
  proof (cases "e = 0")
    case False
    with h show ?thesis by auto
  next
    case True
    with ok have b: "0 <s b" "b \<le> ?c" by simp_all
    have "unat (scast b :: ssize_t) = unat b" by (rule unat_scast_pos [OF b(1)])
    moreover have "0 < unat b" by (rule unat_pos [OF b(1)])
    moreover have "unat b \<le> unat ?c" using b(2) by (simp add: word_le_nat_alt)
    moreover have "unat ?c = unat (write_chunk count)" by (rule write_chunk_field(3) [OF assms(2)])
    moreover have "unat (write_chunk count) \<le> unat count"
      using write_chunk_bounds(2) [of count] by (simp add: word_le_nat_alt)
    ultimately have "0 < unat (scast b :: ssize_t) \<and> unat (scast b :: ssize_t) \<le> unat count"
      by simp
    with h True show ?thesis by auto
  qed
qed

lemma unat_decrease:
  "0 < unat (bw :: size_t) \<Longrightarrow> unat bw \<le> unat count \<Longrightarrow> unat (count - bw) < unat count"
  by (simp add: unat_sub word_le_nat_alt)

lemma conforming_write_loop:
  assumes "conforming E"
  shows "\<exists>res. write_loop E fd st count tot = Some res"
proof (induction "unat count" arbitrary: count st tot rule: less_induct)
  case less
  show ?case
  proof (cases "count = 0")
    case True
    then show ?thesis by (simp add: write_loop_done)
  next
    case False
    from conforming_helper [OF assms False, of st fd tot] obtain bw st1 where
      h: "writeHelper E st fd tot (write_chunk count) = Some (bw, st1)" and
      d: "bw = - 1 \<or> (0 < unat bw \<and> unat bw \<le> unat count)"
      by blast
    show ?thesis
    proof (cases "bw = - 1")
      case True
      with h False show ?thesis by (auto simp: write_loop_abort)
    next
      case nb: False
      with d have "unat (count - bw) < unat count" by (simp add: unat_decrease)
      from less [OF this] obtain res where
        "write_loop E fd st1 (count - bw) (tot + ucast bw) = Some res" by blast
      with write_loop_step [OF False h nb] show ?thesis by simp
    qed
  qed
qed


text \<open>
  Claim C9, as amended. Against a peer each of whose replies to a write sub-frame
  carries a non-zero error number or a bytes-written value that is positive and at most
  the count of the sub-frame, every remote write returns; each iteration's helper call
  returns, and then either the value is \<open>-1\<close> (the loop returns \<open>-1\<close>) or the remaining
  count \<open>n - bw\<close> is strictly smaller than \<open>n\<close>. For any peer \<open>P\<close>, conforming or not,
  and at any iteration, a reply with zero bytes written and zero error number makes the
  helper return 0, which leaves the remaining count and the running total as they were:
  the loop goes on from the same count.
\<close>

theorem write_terminates:
  "(conforming E \<and> \<not> fd <s FD_OFFSET \<longrightarrow>
      (\<exists>res. write_shim E st fd count = Some res)
      \<and> (\<forall>st0 n tot. n \<noteq> 0 \<longrightarrow>
            (\<exists>bw st1. writeHelper E st0 (fd - FD_OFFSET) tot (write_chunk n) = Some (bw, st1)
               \<and> (bw = - 1 \<or> unat (n - bw) < unat n))))
   \<and> (receiveResponse P (sendRequest P st0 (Write_req fd' (ucast (write_chunk n)) tot))
         = Some (Reply 0 0, st1) \<longrightarrow>
        writeHelper P st0 fd' tot (write_chunk n) = Some (0, st1\<lparr>errno := 0\<rparr>)
        \<and> n - 0 = n \<and> tot + ucast (0 :: ssize_t) = tot
        \<and> (n \<noteq> 0 \<longrightarrow>
             write_loop P fd' st0 n tot = write_loop P fd' (st1\<lparr>errno := 0\<rparr>) n tot))"
proof (intro conjI impI allI)
  assume a: "conforming E \<and> \<not> fd <s FD_OFFSET"
  then show "\<exists>res. write_shim E st fd count = Some res"
    using conforming_write_loop [of E] by (simp add: write_shim_def)
next
  fix s0 :: "('a, 'b) proc" and m :: size_t and t :: cint
  assume a: "conforming E \<and> \<not> fd <s FD_OFFSET" and m: "m \<noteq> 0"
  from a have c: "conforming E" by simp
  from conforming_helper [OF c m, of s0 "fd - FD_OFFSET" t]
  show "\<exists>bw st1. writeHelper E s0 (fd - FD_OFFSET) t (write_chunk m) = Some (bw, st1)
               \<and> (bw = - 1 \<or> unat (m - bw) < unat m)"
    using unat_decrease by blast
next
  assume r: "receiveResponse P (sendRequest P st0 (Write_req fd' (ucast (write_chunk n)) tot))
         = Some (Reply 0 0, st1)"
  then show h: "writeHelper P st0 fd' tot (write_chunk n) = Some (0, st1\<lparr>errno := 0\<rparr>)"
    by (simp add: writeHelper_def)
  assume n: "n \<noteq> 0"
  from write_loop_step [OF n h]
  show "write_loop P fd' st0 n tot = write_loop P fd' (st1\<lparr>errno := 0\<rparr>) n tot"
    by simp
qed simp_all


text \<open>
  Without the upper bound the claim fails. A peer that answers every sub-frame with 2
  bytes written and error number 0 meets the claim's precondition; a write of 1 byte then
  does not return: the first iteration takes the remaining count from 1 to
  \<open>2 ^ 64 - 1\<close>, and the count, odd from then on, never reaches 0.
\<close>

lemma twos_parity:
  assumes "write_loop E fd st count tot = Some y"
  shows "E = repeating (Reply 2 0) \<longrightarrow> even count"
proof (induction rule: write_loop.raw_induct [OF _ assms])
  case (1 loop E fd st count tot y)
  show ?case
  proof
    assume E: "E = repeating (Reply 2 0)"
    show "even count"
    proof (cases "count = 0")
      case True
      then show ?thesis by simp
    next
      case False
      have h: "writeHelper E st fd tot (write_chunk count)
                = Some (2, st\<lparr>sent := sent st @ [Write_req fd (ucast (write_chunk count)) tot],
                             rcvd := rcvd st @ [Reply 2 0], errno := 0\<rparr>)"
        by (simp add: E repeating_def local_env_def writeHelper_def receiveResponse_def
              sendRequest_def)
      with False "1.hyps" have
        "loop E fd (st\<lparr>sent := sent st @ [Write_req fd (ucast (write_chunk count)) tot],
                             rcvd := rcvd st @ [Reply 2 0], errno := 0\<rparr>) (count - 2) (tot + ucast (2 :: ssize_t)) = Some y"
        by simp
      from "1.IH" [OF this] E have "even (count - 2)" by simp
      then show ?thesis by simp
    qed
  qed
qed

theorem write_terminates_counterexample:
  "progressing (repeating (Reply 2 0))
   \<and> write_shim (repeating (Reply 2 0)) (start ()) 5003 1 = None
   \<and> writeHelper (repeating (Reply 2 0)) (start ()) 3 0 (write_chunk 1)
       = Some (2, \<lparr>errno = 0, sent = [Write_req 3 1 0], rcvd = [Reply 2 0], peer = (), kern = ()\<rparr>)
   \<and> (2 :: ssize_t) \<noteq> - 1
   \<and> (1 :: size_t) - 2 = 18446744073709551615
   \<and> \<not> unat ((1 :: size_t) - 2) < unat (1 :: size_t)"
proof -
  have p: "progressing (repeating (Reply 2 0))"
    by (simp add: progressing_def repeating_def local_env_def word_sless_alt)
  have n: "write_shim (repeating (Reply 2 0)) (start ()) 5003 1 = None"
  proof (cases "write_shim (repeating (Reply 2 0)) (start ()) 5003 1")
    case (Some y)
    then have "write_loop (repeating (Reply 2 0)) 3 (start ()) 1 0 = Some y"
      by (simp add: write_shim_def FD_OFFSET_def word_sless_alt)
    from twos_parity [OF this] show ?thesis by simp
  qed simp
  have h: "writeHelper (repeating (Reply 2 0)) (start ()) 3 0 (write_chunk 1)
       = Some (2, \<lparr>errno = 0, sent = [Write_req 3 1 0], rcvd = [Reply 2 0], peer = (), kern = ()\<rparr>)"
    by (simp add: repeating_def local_env_def start_def sendRequest_def receiveResponse_def
        writeHelper_def write_chunk_def MAX_MSG_LEN_def)
  have w: "(1 :: size_t) - 2 = 18446744073709551615"
    by simp
  have u: "\<not> unat ((1 :: size_t) - 2) < unat (1 :: size_t)"
    unfolding w by simp
  have m: "(2 :: ssize_t) \<noteq> - 1"
    by simp
  show ?thesis using p n h w u m by blast
qed

theorem write_terminates_witness:
  "conforming obedient \<and> \<not> (5003 :: cint) <s FD_OFFSET
   \<and> write_shim obedient (start 0) 5003 4085
       = Some (4085, \<lparr>errno = 0, sent = [Write_req 3 4084 0, Write_req 3 1 4084],
                       rcvd = [Reply 4084 0, Reply 1 0], peer = 1, kern = ()\<rparr>)
   \<and> (\<exists>res. write_shim obedient (start 0) 5003 1000000 = Some res)
   \<and> receiveResponse (repeating (Reply 0 0))
        (sendRequest (repeating (Reply 0 0)) (start ()) (Write_req 3 (ucast (write_chunk 1)) 0))
       = Some (Reply 0 0, \<lparr>errno = 0, sent = [Write_req 3 1 0], rcvd = [Reply 0 0],
                            peer = (), kern = ()\<rparr>)
   \<and> writeHelper (repeating (Reply 0 0)) (start ()) 3 0 (write_chunk 1)
       = Some (0, \<lparr>errno = 0, sent = [Write_req 3 1 0], rcvd = [Reply 0 0],
                    peer = (), kern = ()\<rparr>)
   \<and> write_loop (repeating (Reply 0 0)) 3 (start ()) 1 0
       = write_loop (repeating (Reply 0 0)) 3
           \<lparr>errno = 0, sent = [Write_req 3 1 0], rcvd = [Reply 0 0], peer = (), kern = ()\<rparr> 1 0"
proof -
  have ge: "\<not> (5003 :: cint) <s FD_OFFSET"
    by (simp add: FD_OFFSET_def word_sless_alt)
  have c2: "write_chunk 4085 = 4084" and c3: "write_chunk 1 = 1"
    by (simp_all add: write_chunk_def MAX_MSG_LEN_def)
  have h1: "writeHelper obedient (start 0) 3 0 4084
      = Some (4084, \<lparr>errno = 0, sent = [Write_req 3 4084 0], rcvd = [Reply 4084 0],
                      peer = 4084, kern = ()\<rparr>)"
    by (simp add: obedient_def local_env_def start_def sendRequest_def receiveResponse_def
          writeHelper_def)
  have h2: "writeHelper obedient \<lparr>errno = 0, sent = [Write_req 3 4084 0], rcvd = [Reply 4084 0],
                      peer = 4084, kern = ()\<rparr> 3 4084 1
      = Some (1, \<lparr>errno = 0, sent = [Write_req 3 4084 0, Write_req 3 1 4084],
                       rcvd = [Reply 4084 0, Reply 1 0], peer = 1, kern = ()\<rparr>)"
    by (simp add: obedient_def local_env_def sendRequest_def receiveResponse_def writeHelper_def)
  have b: "write_loop obedient 3 (start 0) 4085 0
      = Some (4085, \<lparr>errno = 0, sent = [Write_req 3 4084 0, Write_req 3 1 4084],
                       rcvd = [Reply 4084 0, Reply 1 0], peer = 1, kern = ()\<rparr>)"
    using write_loop_step [of 4085 obedient "start 0" 3 0] h1 c2
          write_loop_step [of 1 obedient "\<lparr>errno = 0, sent = [Write_req 3 4084 0],
             rcvd = [Reply 4084 0], peer = 4084, kern = ()\<rparr>" 3 4084] h2 c3
    by (simp add: write_loop_done)
  have z: "receiveResponse (repeating (Reply 0 0))
        (sendRequest (repeating (Reply 0 0)) (start ()) (Write_req 3 (ucast (write_chunk 1)) 0))
       = Some (Reply 0 0, \<lparr>errno = 0, sent = [Write_req 3 1 0], rcvd = [Reply 0 0],
                            peer = (), kern = ()\<rparr>)"
    by (simp add: repeating_def local_env_def start_def sendRequest_def receiveResponse_def c3)
  note w = write_terminates [where E = obedient and fd = 5003 and st = "start 0"
      and count = 1000000 and P = "repeating (Reply 0 0)" and ?st0.0 = "start ()"
      and fd' = 3 and n = 1 and tot = 0
      and ?st1.0 = "\<lparr>errno = 0, sent = [Write_req 3 1 0], rcvd = [Reply 0 0],
                     peer = (), kern = ()\<rparr>"]
  from w conforming_obedient ge
  have t: "\<exists>res. write_shim obedient (start 0) 5003 1000000 = Some res" by blast
  from w z
  have k: "writeHelper (repeating (Reply 0 0)) (start ()) 3 0 (write_chunk 1)
       = Some (0, \<lparr>errno = 0, sent = [Write_req 3 1 0], rcvd = [Reply 0 0],
                    peer = (), kern = ()\<rparr>)"
    and l: "write_loop (repeating (Reply 0 0)) 3 (start ()) 1 0
       = write_loop (repeating (Reply 0 0)) 3
           \<lparr>errno = 0, sent = [Write_req 3 1 0], rcvd = [Reply 0 0], peer = (), kern = ()\<rparr> 1 0"
    by simp_all
  show ?thesis
    using conforming_obedient ge b t z k l by (simp add: write_shim_def FD_OFFSET_def)
qed


section \<open>The server's reply to getdirentries\<close>

text \<open>
  Claim C5. The claim holds of the client, which reads no data frame after a header
  with a non-zero error number, and not of the server. In a session whose \<^verbatim>\<open>errno\<close> is 2,
  left by an earlier request that failed, a getdirentries request that succeeds with 3
  bytes is answered by the header (3, 2) and then by a data frame of 3 bytes: \<^verbatim>\<open>main\<close>
  sends \<^verbatim>\<open>retLen\<close> bytes whatever the error number.
\<close>

theorem getdirentries_reply_stale_errno:
  "main_getdirentries (\<lambda>fd nbyte basep (e, k). (3, [100, 101, 102], e, k))
      \<lparr>s_errno = 2, s_send_fails = None, s_sent = [], s_kern = ()\<rparr> 4 3 0
      (replicate 4097 0)
     = Some \<lparr>s_errno = 2, s_send_fails = None,
              s_sent = [[3, 0, 0, 0, 2, 0, 0, 0], [100, 101, 102]], s_kern = ()\<rparr>"
  by (simp add: main_getdirentries_def handle_getdirentries_def send_sess_def le32_def Let_def)


end
